theory Spec2Isabelle
  imports Main
begin

section \<open>x402 Task Board: the D1 schema and the request handlers of index.ts\<close>

text \<open>
  The worker of \<^verbatim>\<open>src/index.ts\<close> answers each request by reading and writing four D1
  (SQLite) tables. The tables are modelled as lists of rows in insertion order, a handler
  as a function from the database and the parsed JSON body to the new database and the
  HTTP response. Each handler is given twice: as one function (the request runs from its
  first statement to its answer with no other request in between), and cut into the steps
  between its \<^verbatim>\<open>await\<close>s, so that the statements of concurrent requests
  interleave. The two agree on a request that runs alone (lemma \<open>fetch_run_alone\<close>);
  the reachable states are those of the interleaved steps.

  Conventions of the embedding:
  \<^item> a TEXT column that may be NULL, and a JSON field that may be absent, is a
    \<open>string option\<close>; JavaScript truthiness of such a field is \<open>truthy\<close>
    (absent and the empty string are falsy), of a number \<open>truthy_num\<close> (absent and
    0 are falsy);
  \<^item> JSON fields carry values of their documented types; amounts are integers
    (\<open>int\<close>, unbounded);
  \<^item> the status columns, constrained by CHECK to a fixed list of words, are datatypes;
  \<^item> \<^verbatim>\<open>Date.now()\<close> and SQLite's \<^verbatim>\<open>datetime('now')\<close> are one clock value
    \<open>now\<close> (milliseconds), a parameter of every handler;
  \<^item> \<^verbatim>\<open>new Date(body.timestamp).getTime()\<close> is decoded in the body already:
    the field is absent, unparsable (NaN) or an instant in milliseconds;
  \<^item> a body that is not JSON and a failing database statement (the 500 answer of
    POST /api/tasks) are not modelled: every statement of a handler succeeds.
\<close>

subsection \<open>Rows\<close>

datatype task_status = Open | Assigned | Submitted | Verified | Paid | Disputed | Cancelled

datatype bid_state = Pending | Accepted | Rejected | Withdrawn

record agent =
  btc_address :: string
  stx_address :: "string option"
  display_name :: "string option"
  reputation :: int
  tasks_posted :: int
  tasks_completed :: int
  total_earned_sats :: int
  total_spent_sats :: int
  first_seen :: int

record task =
  tid :: nat
  poster :: string
  title :: string
  description :: string
  bounty_sats :: int
  status :: task_status
  tags :: "string option"
  deadline :: "string option"
  worker :: "string option"
  proof_url :: "string option"
  proof_description :: "string option"
  payment_tx :: "string option"
  poster_signature :: "string option"
  created_at :: int
  updated_at :: int

record bid =
  bid_id :: nat
  task_id :: nat
  bidder :: string
  amount_sats :: int
  message :: "string option"
  bid_status :: bid_state
  bidder_signature :: "string option"
  bid_created_at :: int

record activity_row =
  act_id :: nat
  act_task_id :: nat
  actor :: string
  action :: string
  details :: "string option"
  act_created_at :: int

record db =
  agents :: "agent list"
  tasks :: "task list"
  bids :: "bid list"
  activity :: "activity_row list"

definition empty_db :: db where
  "empty_db = \<lparr>agents = [], tasks = [], bids = [], activity = []\<rparr>"

subsection \<open>Request bodies and responses\<close>

datatype timestamp_field = TsAbsent | TsUnparsable | TsAt int

record body =
  b_poster :: "string option"
  b_title :: "string option"
  b_description :: "string option"
  b_bounty_sats :: "int option"
  b_tags :: "string option"
  b_deadline :: "string option"
  b_poster_name :: "string option"
  b_poster_stx :: "string option"
  b_signature :: "string option"
  b_timestamp :: timestamp_field
  b_bidder :: "string option"
  b_amount_sats :: "int option"
  b_message :: "string option"
  b_bidder_name :: "string option"
  b_bidder_stx :: "string option"
  b_bid_id :: "nat option"
  b_worker :: "string option"
  b_proof_url :: "string option"
  b_approved :: "bool option"
  b_payment_tx :: "string option"
  b_reason :: "string option"

definition empty_body :: body where
  "empty_body = \<lparr>b_poster = None, b_title = None, b_description = None,
     b_bounty_sats = None, b_tags = None, b_deadline = None, b_poster_name = None,
     b_poster_stx = None, b_signature = None, b_timestamp = TsAbsent, b_bidder = None,
     b_amount_sats = None, b_message = None, b_bidder_name = None, b_bidder_stx = None,
     b_bid_id = None, b_worker = None, b_proof_url = None, b_approved = None,
     b_payment_tx = None, b_reason = None\<rparr>"

text \<open>The JSON objects the handlers answer with, and \<^verbatim>\<open>json(data, status)\<close>.\<close>

datatype payload =
    Error string
  | TaskCreated nat
  | BidCreated nat
  | AcceptedWorker string
  | Success
  | VerifyResult task_status

type_synonym response = "nat \<times> payload"

definition json :: "payload \<Rightarrow> nat \<Rightarrow> response" where
  "json data code = (code, data)"

subsection \<open>JavaScript and SQL helpers\<close>

definition truthy :: "string option \<Rightarrow> bool" where
  "truthy x = (case x of None \<Rightarrow> False | Some s \<Rightarrow> s \<noteq> [])"

definition truthy_num :: "int option \<Rightarrow> bool" where
  "truthy_num x = (case x of None \<Rightarrow> False | Some n \<Rightarrow> n \<noteq> 0)"

definition truthy_id :: "nat option \<Rightarrow> bool" where
  "truthy_id x = (case x of None \<Rightarrow> False | Some n \<Rightarrow> n \<noteq> 0)"

text \<open>\<^verbatim>\<open>x || null\<close> and \<^verbatim>\<open>x || ''\<close>.\<close>

definition or_null :: "string option \<Rightarrow> string option" where
  "or_null x = (if truthy x then x else None)"

definition or_empty :: "string option \<Rightarrow> string" where
  "or_empty x = (case x of None \<Rightarrow> [] | Some s \<Rightarrow> s)"

definition num :: "int option \<Rightarrow> int" where
  "num x = (case x of None \<Rightarrow> 0 | Some n \<Rightarrow> n)"

definition ident :: "nat option \<Rightarrow> nat" where
  "ident x = (case x of None \<Rightarrow> 0 | Some n \<Rightarrow> n)"

text \<open>SQL \<^verbatim>\<open>COALESCE(a, b)\<close>.\<close>

definition coalesce :: "'a option \<Rightarrow> 'a option \<Rightarrow> 'a option" where
  "coalesce x y = (case x of None \<Rightarrow> y | Some v \<Rightarrow> Some v)"

text \<open>The decimal text of a number inside a template string.\<close>

definition digit_char :: "nat \<Rightarrow> char" where
  "digit_char n = ''0123456789'' ! n"

fun string_of_nat :: "nat \<Rightarrow> string" where
  "string_of_nat n =
     (if n < 10 then [digit_char n]
      else string_of_nat (n div 10) @ [digit_char (n mod 10)])"

definition string_of_int :: "int \<Rightarrow> string" where
  "string_of_int i = (if i < 0 then CHR ''-'' # string_of_nat (nat (- i)) else string_of_nat (nat i))"

text \<open>
  \<^verbatim>\<open>UPDATE t SET ... WHERE c\<close>: every row that satisfies \<open>c\<close> is rewritten by
  \<open>f\<close>; \<^verbatim>\<open>meta.changes\<close> is the number of rows that satisfied \<open>c\<close>.
  An AUTOINCREMENT key is one more than the largest key so far (no row is ever deleted).
\<close>

definition sql_update :: "('a \<Rightarrow> bool) \<Rightarrow> ('a \<Rightarrow> 'a) \<Rightarrow> 'a list \<Rightarrow> 'a list" where
  "sql_update c f rows = map (\<lambda>r. if c r then f r else r) rows"

definition sql_changes :: "('a \<Rightarrow> bool) \<Rightarrow> 'a list \<Rightarrow> nat" where
  "sql_changes c rows = length (filter c rows)"

definition last_row_id :: "nat list \<Rightarrow> nat" where
  "last_row_id keys = Suc (fold max keys 0)"

definition select_task :: "db \<Rightarrow> nat \<Rightarrow> task option" where
  "select_task d i = find (\<lambda>t. tid t = i) (tasks d)"

definition select_bid :: "db \<Rightarrow> nat \<Rightarrow> nat \<Rightarrow> bid option" where
  "select_bid d b i = find (\<lambda>r. bid_id r = b \<and> task_id r = i) (bids d)"

definition select_agent :: "db \<Rightarrow> string \<Rightarrow> agent option" where
  "select_agent d a = find (\<lambda>r. btc_address r = a) (agents d)"

definition insert_activity :: "int \<Rightarrow> nat \<Rightarrow> string \<Rightarrow> string \<Rightarrow> string option \<Rightarrow> db \<Rightarrow> db" where
  "insert_activity now i who what info d =
     d\<lparr>activity := activity d @
        [\<lparr>act_id = last_row_id (map act_id (activity d)), act_task_id = i, actor = who,
          action = what, details = info, act_created_at = now\<rparr>]\<rparr>"

subsection \<open>validateAuth and ensureAgent\<close>

definition address_field :: "body \<Rightarrow> string \<Rightarrow> string option" where
  "address_field b f =
     (if f = ''poster'' then b_poster b
      else if f = ''bidder'' then b_bidder b
      else if f = ''worker'' then b_worker b
      else None)"

text \<open>
  The result is the error message, or \<open>None\<close> for JavaScript's \<^verbatim>\<open>null\<close>. The
  signature is checked for its length only; the signed message the function stores in the
  body is read nowhere and is left out.
\<close>

definition validateAuth :: "int \<Rightarrow> body \<Rightarrow> string \<Rightarrow> string \<Rightarrow> string option" where
  "validateAuth now b act addressField =
     (if \<not> truthy (address_field b addressField) then Some (''Required: '' @ addressField)
      else if \<not> truthy (b_signature b) then Some ''Required: signature (BIP-137 signed message)''
      else if b_timestamp b = TsAbsent then Some ''Required: timestamp (ISO 8601)''
      else if length (or_empty (b_signature b)) < 80 \<or> length (or_empty (b_signature b)) > 100
        then Some ''Invalid signature format (expected base64 BIP-137, ~88 chars)''
      else (case b_timestamp b of
              TsAt ts \<Rightarrow>
                if \<bar>now - ts\<bar> > 300000
                then Some ''Timestamp expired (must be within 300 seconds of server time)''
                else None
            | _ \<Rightarrow> Some ''Invalid timestamp format''))"

definition new_agent :: "int \<Rightarrow> string \<Rightarrow> string option \<Rightarrow> string option \<Rightarrow> agent" where
  "new_agent now a dn sx =
     \<lparr>btc_address = a, stx_address = sx, display_name = dn, reputation = 0,
      tasks_posted = 0, tasks_completed = 0, total_earned_sats = 0, total_spent_sats = 0,
      first_seen = now\<rparr>"

definition ensureAgent :: "int \<Rightarrow> db \<Rightarrow> string \<Rightarrow> string option \<Rightarrow> string option \<Rightarrow> db" where
  "ensureAgent now d btcAddress displayName stxAddress =
     (if list_ex (\<lambda>a. btc_address a = btcAddress) (agents d)
      then d\<lparr>agents := sql_update (\<lambda>a. btc_address a = btcAddress)
               (\<lambda>a. a\<lparr>display_name := coalesce (or_null displayName) (display_name a),
                      stx_address := coalesce (or_null stxAddress) (stx_address a)\<rparr>)
               (agents d)\<rparr>
      else d\<lparr>agents := agents d @ [new_agent now btcAddress (or_null displayName) (or_null stxAddress)]\<rparr>)"

subsection \<open>POST /api/tasks\<close>

definition insert_task :: "int \<Rightarrow> body \<Rightarrow> db \<Rightarrow> db" where
  "insert_task now b d =
     d\<lparr>tasks := tasks d @
        [\<lparr>tid = last_row_id (map tid (tasks d)), poster = or_empty (b_poster b),
          title = or_empty (b_title b), description = or_empty (b_description b),
          bounty_sats = num (b_bounty_sats b), status = Open, tags = or_null (b_tags b),
          deadline = or_null (b_deadline b), worker = None, proof_url = None,
          proof_description = None, payment_tx = None,
          poster_signature = or_null (b_signature b), created_at = now, updated_at = now\<rparr>]\<rparr>"

definition create_task :: "int \<Rightarrow> db \<Rightarrow> body \<Rightarrow> db \<times> response" where
  "create_task now d b =
     (if \<not> truthy (b_poster b) \<or> \<not> truthy (b_title b) \<or> \<not> truthy (b_description b)
         \<or> \<not> truthy_num (b_bounty_sats b)
      then (d, json (Error ''Required: poster, title, description, bounty_sats'') 400)
      else if num (b_bounty_sats b) < 1
      then (d, json (Error ''bounty_sats must be positive'') 400)
      else (case validateAuth now b ''create_task'' ''poster'' of
              Some authErr \<Rightarrow> (d, json (Error authErr) 401)
            | None \<Rightarrow>
               (let d1 = ensureAgent now d (or_empty (b_poster b)) (b_poster_name b) (b_poster_stx b);
                    new_id = last_row_id (map tid (tasks d1));
                    d2 = insert_task now b d1;
                    d3 = d2\<lparr>agents := sql_update (\<lambda>a. btc_address a = or_empty (b_poster b))
                            (\<lambda>a. a\<lparr>tasks_posted := tasks_posted a + 1,
                                   total_spent_sats := total_spent_sats a + num (b_bounty_sats b)\<rparr>)
                            (agents d2)\<rparr>;
                    d4 = insert_activity now new_id (or_empty (b_poster b)) ''created''
                           (Some (''Bounty: '' @ string_of_int (num (b_bounty_sats b)) @ '' sats'')) d3
                in (d4, json (TaskCreated new_id) 201))))"

subsection \<open>POST /api/tasks/:id/bid\<close>

definition insert_bid :: "int \<Rightarrow> nat \<Rightarrow> body \<Rightarrow> db \<Rightarrow> db" where
  "insert_bid now i b d =
     d\<lparr>bids := bids d @
        [\<lparr>bid_id = last_row_id (map bid_id (bids d)), task_id = i,
          bidder = or_empty (b_bidder b), amount_sats = num (b_amount_sats b),
          message = or_null (b_message b), bid_status = Pending,
          bidder_signature = or_null (b_signature b), bid_created_at = now\<rparr>]\<rparr>"

definition place_bid :: "int \<Rightarrow> db \<Rightarrow> nat \<Rightarrow> body \<Rightarrow> db \<times> response" where
  "place_bid now d i b =
     (if \<not> truthy (b_bidder b) \<or> \<not> truthy_num (b_amount_sats b)
      then (d, json (Error ''Required: bidder, amount_sats'') 400)
      else (case validateAuth now b ''bid'' ''bidder'' of
              Some authErr \<Rightarrow> (d, json (Error authErr) 401)
            | None \<Rightarrow>
               (case select_task d i of
                  None \<Rightarrow> (d, json (Error ''Task not found'') 404)
                | Some t \<Rightarrow>
                    if status t \<noteq> Open then (d, json (Error ''Task is not open for bids'') 400)
                    else if poster t = or_empty (b_bidder b)
                    then (d, json (Error ''Cannot bid on your own task'') 400)
                    else
                      (let d1 = ensureAgent now d (or_empty (b_bidder b)) (b_bidder_name b) (b_bidder_stx b);
                           new_id = last_row_id (map bid_id (bids d1));
                           d2 = insert_bid now i b d1;
                           d3 = insert_activity now i (or_empty (b_bidder b)) ''bid''
                                  (Some (string_of_int (num (b_amount_sats b)) @ '' sats: ''
                                         @ or_empty (or_null (b_message b)))) d2
                       in (d3, json (BidCreated new_id) 201)))))"

subsection \<open>POST /api/tasks/:id/accept\<close>

text \<open>
  The conditional update of the task row, with its \<^verbatim>\<open>meta.changes\<close>, and the batch
  that follows it when a row changed.
\<close>

definition accept_guard :: "nat \<Rightarrow> string \<Rightarrow> task \<Rightarrow> bool" where
  "accept_guard i p t = (tid t = i \<and> status t = Open \<and> poster t = p)"

definition accept_update :: "int \<Rightarrow> db \<Rightarrow> nat \<Rightarrow> bid \<Rightarrow> string \<Rightarrow> db \<times> nat" where
  "accept_update now d i bd p =
     (d\<lparr>tasks := sql_update (accept_guard i p)
          (\<lambda>t. t\<lparr>status := Assigned, worker := Some (bidder bd),
                 bounty_sats := amount_sats bd, updated_at := now\<rparr>)
          (tasks d)\<rparr>,
      sql_changes (accept_guard i p) (tasks d))"

definition accept_cascade :: "int \<Rightarrow> db \<Rightarrow> nat \<Rightarrow> nat \<Rightarrow> string \<Rightarrow> bid \<Rightarrow> db" where
  "accept_cascade now d i b p bd =
     (let d1 = d\<lparr>bids := sql_update (\<lambda>r. bid_id r = b) (\<lambda>r. r\<lparr>bid_status := Accepted\<rparr>) (bids d)\<rparr>;
          d2 = d1\<lparr>bids := sql_update (\<lambda>r. task_id r = i \<and> bid_id r \<noteq> b \<and> bid_status r = Pending)
                  (\<lambda>r. r\<lparr>bid_status := Rejected\<rparr>) (bids d1)\<rparr>
      in insert_activity now i p ''accepted_bid''
           (Some (''Assigned to '' @ bidder bd @ '' for '' @ string_of_int (amount_sats bd) @ '' sats'')) d2)"

definition accept_bid :: "int \<Rightarrow> db \<Rightarrow> nat \<Rightarrow> body \<Rightarrow> db \<times> response" where
  "accept_bid now d i b =
     (if \<not> truthy (b_poster b) \<or> \<not> truthy_id (b_bid_id b)
      then (d, json (Error ''Required: poster, bid_id'') 400)
      else (case validateAuth now b ''accept_bid'' ''poster'' of
              Some authErr \<Rightarrow> (d, json (Error authErr) 401)
            | None \<Rightarrow>
               (case select_bid d (ident (b_bid_id b)) i of
                  None \<Rightarrow> (d, json (Error ''Bid not found'') 404)
                | Some bd \<Rightarrow>
                   (case accept_update now d i bd (or_empty (b_poster b)) of
                      (d1, changes) \<Rightarrow>
                        if changes = 0
                        then (d1, json (Error ''Task already accepted or not open, or not your task'') 409)
                        else (accept_cascade now d1 i (ident (b_bid_id b)) (or_empty (b_poster b)) bd,
                              json (AcceptedWorker (bidder bd)) 200)))))"

subsection \<open>POST /api/tasks/:id/submit\<close>

definition submit_work :: "int \<Rightarrow> db \<Rightarrow> nat \<Rightarrow> body \<Rightarrow> db \<times> response" where
  "submit_work now d i b =
     (if \<not> truthy (b_worker b) \<or> \<not> truthy (b_proof_url b)
      then (d, json (Error ''Required: worker, proof_url'') 400)
      else (case validateAuth now b ''submit'' ''worker'' of
              Some authErr \<Rightarrow> (d, json (Error authErr) 401)
            | None \<Rightarrow>
               (case select_task d i of
                  None \<Rightarrow> (d, json (Error ''Task not found'') 404)
                | Some t \<Rightarrow>
                    if worker t \<noteq> b_worker b
                    then (d, json (Error ''Only the assigned worker can submit'') 403)
                    else if status t \<noteq> Assigned
                    then (d, json (Error ''Task is not in assigned state'') 400)
                    else
                      (let d1 = d\<lparr>tasks := sql_update (\<lambda>r. tid r = i)
                                   (\<lambda>r. r\<lparr>status := Submitted, proof_url := b_proof_url b,
                                          proof_description := or_null (b_description b),
                                          updated_at := now\<rparr>)
                                   (tasks d)\<rparr>
                       in (insert_activity now i (or_empty (b_worker b)) ''submitted'' (b_proof_url b) d1,
                           json Success 200)))))"

subsection \<open>POST /api/tasks/:id/verify\<close>

definition verify_work :: "int \<Rightarrow> db \<Rightarrow> nat \<Rightarrow> body \<Rightarrow> db \<times> response" where
  "verify_work now d i b =
     (if \<not> truthy (b_poster b) \<or> b_approved b = None
      then (d, json (Error ''Required: poster, approved (true/false)'') 400)
      else (case validateAuth now b ''verify'' ''poster'' of
              Some authErr \<Rightarrow> (d, json (Error authErr) 401)
            | None \<Rightarrow>
               (case select_task d i of
                  None \<Rightarrow> (d, json (Error ''Task not found'') 404)
                | Some t \<Rightarrow>
                    if poster t \<noteq> or_empty (b_poster b)
                    then (d, json (Error ''Only the poster can verify'') 403)
                    else if status t \<noteq> Submitted
                    then (d, json (Error ''Task work not submitted yet'') 400)
                    else if b_approved b = Some True
                    then
                      (let newStatus = (if truthy (b_payment_tx b) then Paid else Verified);
                           d1 = d\<lparr>tasks := sql_update (\<lambda>r. tid r = i)
                                   (\<lambda>r. r\<lparr>status := newStatus, payment_tx := or_null (b_payment_tx b),
                                          updated_at := now\<rparr>)
                                   (tasks d)\<rparr>;
                           d2 = d1\<lparr>agents := sql_update (\<lambda>a. Some (btc_address a) = worker t)
                                   (\<lambda>a. a\<lparr>tasks_completed := tasks_completed a + 1,
                                          total_earned_sats := total_earned_sats a + bounty_sats t,
                                          reputation := reputation a + 1\<rparr>)
                                   (agents d1)\<rparr>;
                           d3 = d2\<lparr>agents := sql_update (\<lambda>a. btc_address a = poster t)
                                   (\<lambda>a. a\<lparr>reputation := reputation a + 1\<rparr>)
                                   (agents d2)\<rparr>
                       in (insert_activity now i (or_empty (b_poster b)) ''verified''
                             (Some (''Approved. '' @
                                (if truthy (b_payment_tx b) then ''Paid: '' @ or_empty (b_payment_tx b)
                                 else ''Awaiting payment.''))) d3,
                           json (VerifyResult Verified) 200))
                    else
                      (let d1 = d\<lparr>tasks := sql_update (\<lambda>r. tid r = i)
                                   (\<lambda>r. r\<lparr>status := Disputed, updated_at := now\<rparr>) (tasks d)\<rparr>
                       in (insert_activity now i (or_empty (b_poster b)) ''disputed''
                             (Some (if truthy (b_reason b) then or_empty (b_reason b)
                                    else ''Work not satisfactory'')) d1,
                           json (VerifyResult Disputed) 200)))))"

subsection \<open>PATCH /api/tasks/:id/cancel\<close>

definition cancel_task :: "int \<Rightarrow> db \<Rightarrow> nat \<Rightarrow> body \<Rightarrow> db \<times> response" where
  "cancel_task now d i b =
     (if \<not> truthy (b_poster b) then (d, json (Error ''Required: poster'') 400)
      else (case validateAuth now b ''cancel'' ''poster'' of
              Some authErr \<Rightarrow> (d, json (Error authErr) 401)
            | None \<Rightarrow>
               (case select_task d i of
                  None \<Rightarrow> (d, json (Error ''Task not found'') 404)
                | Some t \<Rightarrow>
                    if poster t \<noteq> or_empty (b_poster b)
                    then (d, json (Error ''Only the poster can cancel'') 403)
                    else if status t \<noteq> Open
                    then (d, json (Error ''Can only cancel open tasks'') 400)
                    else
                      (let d1 = d\<lparr>tasks := sql_update (\<lambda>r. tid r = i)
                                   (\<lambda>r. r\<lparr>status := Cancelled, updated_at := now\<rparr>) (tasks d)\<rparr>;
                           d2 = d1\<lparr>agents := sql_update (\<lambda>a. btc_address a = or_empty (b_poster b))
                                   (\<lambda>a. a\<lparr>total_spent_sats := total_spent_sats a - bounty_sats t\<rparr>)
                                   (agents d1)\<rparr>
                       in (insert_activity now i (or_empty (b_poster b)) ''cancelled''
                             (Some ''Task cancelled'') d2,
                           json Success 200)))))"

subsection \<open>The state-changing routes of fetch\<close>

text \<open>
  The GET routes only read the tables and are left out. The path's \<^verbatim>\<open>\d+\<close> segment
  is the task id.
\<close>

datatype request =
    PostTask body
  | PostBid nat body
  | PostAccept nat body
  | PostSubmit nat body
  | PostVerify nat body
  | PatchCancel nat body

fun fetch :: "int \<Rightarrow> db \<Rightarrow> request \<Rightarrow> db \<times> response" where
  "fetch now d (PostTask b) = create_task now d b"
| "fetch now d (PostBid i b) = place_bid now d i b"
| "fetch now d (PostAccept i b) = accept_bid now d i b"
| "fetch now d (PostSubmit i b) = submit_work now d i b"
| "fetch now d (PostVerify i b) = verify_work now d i b"
| "fetch now d (PatchCancel i b) = cancel_task now d i b"


subsection \<open>Requests in flight\<close>

text \<open>
  A handler reaches the database only at its \<^verbatim>\<open>await\<close>s: each prepared statement
  it runs, and each \<^verbatim>\<open>batch\<close> (a transaction), is one atomic step, and the statements
  of other requests may run between two steps of the same request. What a request still has
  to do after a step, with the local variables it carries, is a continuation:
  \<^item> POST /api/tasks: ensureAgent (with the validation before it), then the INSERT of the
    task, the UPDATE of the poster's ledger, the INSERT of the activity record;
  \<^item> bid: the SELECT of the task with its checks, then ensureAgent, the INSERT of the bid,
    the INSERT of the activity record;
  \<^item> accept: the SELECT of the bid, then the conditional UPDATE, then the batch;
  \<^item> submit, verify, cancel: the SELECT of the task with its checks, then the batch, which
    tests no status: it rewrites the row whose id is the task's.
  \<open>start\<close> is a request's first step, \<open>resume\<close> the next step of a request in
  flight; both answer with the response, or with the continuation.
\<close>

datatype cont =
    CreateInsert body
  | CreateLedger body nat
  | CreateLog body nat
  | BidEnsure nat body
  | BidInsert nat body
  | BidLog nat body nat
  | AcceptUpdate nat body bid
  | AcceptBatch nat body bid
  | SubmitBatch nat body
  | VerifyBatch nat body task
  | CancelBatch nat body task

fun start :: "int \<Rightarrow> db \<Rightarrow> request \<Rightarrow> db \<times> (response + cont)" where
  "start now d (PostTask b) =
     (if \<not> truthy (b_poster b) \<or> \<not> truthy (b_title b) \<or> \<not> truthy (b_description b)
         \<or> \<not> truthy_num (b_bounty_sats b)
      then (d, Inl (json (Error ''Required: poster, title, description, bounty_sats'') 400))
      else if num (b_bounty_sats b) < 1
      then (d, Inl (json (Error ''bounty_sats must be positive'') 400))
      else (case validateAuth now b ''create_task'' ''poster'' of
              Some authErr \<Rightarrow> (d, Inl (json (Error authErr) 401))
            | None \<Rightarrow>
                (ensureAgent now d (or_empty (b_poster b)) (b_poster_name b) (b_poster_stx b),
                 Inr (CreateInsert b))))"
| "start now d (PostBid i b) =
     (if \<not> truthy (b_bidder b) \<or> \<not> truthy_num (b_amount_sats b)
      then (d, Inl (json (Error ''Required: bidder, amount_sats'') 400))
      else (case validateAuth now b ''bid'' ''bidder'' of
              Some authErr \<Rightarrow> (d, Inl (json (Error authErr) 401))
            | None \<Rightarrow>
               (case select_task d i of
                  None \<Rightarrow> (d, Inl (json (Error ''Task not found'') 404))
                | Some t \<Rightarrow>
                    if status t \<noteq> Open then (d, Inl (json (Error ''Task is not open for bids'') 400))
                    else if poster t = or_empty (b_bidder b)
                    then (d, Inl (json (Error ''Cannot bid on your own task'') 400))
                    else (d, Inr (BidEnsure i b)))))"
| "start now d (PostAccept i b) =
     (if \<not> truthy (b_poster b) \<or> \<not> truthy_id (b_bid_id b)
      then (d, Inl (json (Error ''Required: poster, bid_id'') 400))
      else (case validateAuth now b ''accept_bid'' ''poster'' of
              Some authErr \<Rightarrow> (d, Inl (json (Error authErr) 401))
            | None \<Rightarrow>
               (case select_bid d (ident (b_bid_id b)) i of
                  None \<Rightarrow> (d, Inl (json (Error ''Bid not found'') 404))
                | Some bd \<Rightarrow> (d, Inr (AcceptUpdate i b bd)))))"
| "start now d (PostSubmit i b) =
     (if \<not> truthy (b_worker b) \<or> \<not> truthy (b_proof_url b)
      then (d, Inl (json (Error ''Required: worker, proof_url'') 400))
      else (case validateAuth now b ''submit'' ''worker'' of
              Some authErr \<Rightarrow> (d, Inl (json (Error authErr) 401))
            | None \<Rightarrow>
               (case select_task d i of
                  None \<Rightarrow> (d, Inl (json (Error ''Task not found'') 404))
                | Some t \<Rightarrow>
                    if worker t \<noteq> b_worker b
                    then (d, Inl (json (Error ''Only the assigned worker can submit'') 403))
                    else if status t \<noteq> Assigned
                    then (d, Inl (json (Error ''Task is not in assigned state'') 400))
                    else (d, Inr (SubmitBatch i b)))))"
| "start now d (PostVerify i b) =
     (if \<not> truthy (b_poster b) \<or> b_approved b = None
      then (d, Inl (json (Error ''Required: poster, approved (true/false)'') 400))
      else (case validateAuth now b ''verify'' ''poster'' of
              Some authErr \<Rightarrow> (d, Inl (json (Error authErr) 401))
            | None \<Rightarrow>
               (case select_task d i of
                  None \<Rightarrow> (d, Inl (json (Error ''Task not found'') 404))
                | Some t \<Rightarrow>
                    if poster t \<noteq> or_empty (b_poster b)
                    then (d, Inl (json (Error ''Only the poster can verify'') 403))
                    else if status t \<noteq> Submitted
                    then (d, Inl (json (Error ''Task work not submitted yet'') 400))
                    else (d, Inr (VerifyBatch i b t)))))"
| "start now d (PatchCancel i b) =
     (if \<not> truthy (b_poster b) then (d, Inl (json (Error ''Required: poster'') 400))
      else (case validateAuth now b ''cancel'' ''poster'' of
              Some authErr \<Rightarrow> (d, Inl (json (Error authErr) 401))
            | None \<Rightarrow>
               (case select_task d i of
                  None \<Rightarrow> (d, Inl (json (Error ''Task not found'') 404))
                | Some t \<Rightarrow>
                    if poster t \<noteq> or_empty (b_poster b)
                    then (d, Inl (json (Error ''Only the poster can cancel'') 403))
                    else if status t \<noteq> Open
                    then (d, Inl (json (Error ''Can only cancel open tasks'') 400))
                    else (d, Inr (CancelBatch i b t)))))"

fun resume :: "int \<Rightarrow> db \<Rightarrow> cont \<Rightarrow> db \<times> (response + cont)" where
  "resume now d (CreateInsert b) =
     (insert_task now b d, Inr (CreateLedger b (last_row_id (map tid (tasks d)))))"
| "resume now d (CreateLedger b new_id) =
     (d\<lparr>agents := sql_update (\<lambda>a. btc_address a = or_empty (b_poster b))
          (\<lambda>a. a\<lparr>tasks_posted := tasks_posted a + 1,
                 total_spent_sats := total_spent_sats a + num (b_bounty_sats b)\<rparr>)
          (agents d)\<rparr>,
      Inr (CreateLog b new_id))"
| "resume now d (CreateLog b new_id) =
     (insert_activity now new_id (or_empty (b_poster b)) ''created''
        (Some (''Bounty: '' @ string_of_int (num (b_bounty_sats b)) @ '' sats'')) d,
      Inl (json (TaskCreated new_id) 201))"
| "resume now d (BidEnsure i b) =
     (ensureAgent now d (or_empty (b_bidder b)) (b_bidder_name b) (b_bidder_stx b),
      Inr (BidInsert i b))"
| "resume now d (BidInsert i b) =
     (insert_bid now i b d, Inr (BidLog i b (last_row_id (map bid_id (bids d)))))"
| "resume now d (BidLog i b new_id) =
     (insert_activity now i (or_empty (b_bidder b)) ''bid''
        (Some (string_of_int (num (b_amount_sats b)) @ '' sats: '' @ or_empty (or_null (b_message b)))) d,
      Inl (json (BidCreated new_id) 201))"
| "resume now d (AcceptUpdate i b bd) =
     (case accept_update now d i bd (or_empty (b_poster b)) of
        (d1, changes) \<Rightarrow>
          if changes = 0
          then (d1, Inl (json (Error ''Task already accepted or not open, or not your task'') 409))
          else (d1, Inr (AcceptBatch i b bd)))"
| "resume now d (AcceptBatch i b bd) =
     (accept_cascade now d i (ident (b_bid_id b)) (or_empty (b_poster b)) bd,
      Inl (json (AcceptedWorker (bidder bd)) 200))"
| "resume now d (SubmitBatch i b) =
     (insert_activity now i (or_empty (b_worker b)) ''submitted'' (b_proof_url b)
        (d\<lparr>tasks := sql_update (\<lambda>r. tid r = i)
             (\<lambda>r. r\<lparr>status := Submitted, proof_url := b_proof_url b,
                    proof_description := or_null (b_description b), updated_at := now\<rparr>)
             (tasks d)\<rparr>),
      Inl (json Success 200))"
| "resume now d (VerifyBatch i b t) =
     (if b_approved b = Some True
      then
        (let newStatus = (if truthy (b_payment_tx b) then Paid else Verified);
             d1 = d\<lparr>tasks := sql_update (\<lambda>r. tid r = i)
                     (\<lambda>r. r\<lparr>status := newStatus, payment_tx := or_null (b_payment_tx b),
                            updated_at := now\<rparr>)
                     (tasks d)\<rparr>;
             d2 = d1\<lparr>agents := sql_update (\<lambda>a. Some (btc_address a) = worker t)
                     (\<lambda>a. a\<lparr>tasks_completed := tasks_completed a + 1,
                            total_earned_sats := total_earned_sats a + bounty_sats t,
                            reputation := reputation a + 1\<rparr>)
                     (agents d1)\<rparr>;
             d3 = d2\<lparr>agents := sql_update (\<lambda>a. btc_address a = poster t)
                     (\<lambda>a. a\<lparr>reputation := reputation a + 1\<rparr>)
                     (agents d2)\<rparr>
         in (insert_activity now i (or_empty (b_poster b)) ''verified''
               (Some (''Approved. '' @
                  (if truthy (b_payment_tx b) then ''Paid: '' @ or_empty (b_payment_tx b)
                   else ''Awaiting payment.''))) d3,
             Inl (json (VerifyResult Verified) 200)))
      else
        (let d1 = d\<lparr>tasks := sql_update (\<lambda>r. tid r = i)
                     (\<lambda>r. r\<lparr>status := Disputed, updated_at := now\<rparr>) (tasks d)\<rparr>
         in (insert_activity now i (or_empty (b_poster b)) ''disputed''
               (Some (if truthy (b_reason b) then or_empty (b_reason b)
                      else ''Work not satisfactory'')) d1,
             Inl (json (VerifyResult Disputed) 200))))"
| "resume now d (CancelBatch i b t) =
     (let d1 = d\<lparr>tasks := sql_update (\<lambda>r. tid r = i)
                  (\<lambda>r. r\<lparr>status := Cancelled, updated_at := now\<rparr>) (tasks d)\<rparr>;
          d2 = d1\<lparr>agents := sql_update (\<lambda>a. btc_address a = or_empty (b_poster b))
                  (\<lambda>a. a\<lparr>total_spent_sats := total_spent_sats a - bounty_sats t\<rparr>)
                  (agents d1)\<rparr>
      in (insert_activity now i (or_empty (b_poster b)) ''cancelled'' (Some ''Task cancelled'') d2,
          Inl (json Success 200)))"

text \<open>
  A request that runs alone takes its steps one after the other on the database the
  step before left. \<open>fetch\<close> above is exactly that (lemma \<open>fetch_run_alone\<close>).
\<close>

fun remaining :: "cont \<Rightarrow> nat" where
  "remaining (CreateInsert b) = 3"
| "remaining (CreateLedger b n) = 2"
| "remaining (CreateLog b n) = 1"
| "remaining (BidEnsure i b) = 3"
| "remaining (BidInsert i b) = 2"
| "remaining (BidLog i b n) = 1"
| "remaining (AcceptUpdate i b bd) = 2"
| "remaining (AcceptBatch i b bd) = 1"
| "remaining (SubmitBatch i b) = 1"
| "remaining (VerifyBatch i b t) = 1"
| "remaining (CancelBatch i b t) = 1"

function finish :: "int \<Rightarrow> db \<Rightarrow> cont \<Rightarrow> db \<times> response" where
  "finish now d c =
     (case resume now d c of
        (d', Inl r) \<Rightarrow> (d', r)
      | (d', Inr c') \<Rightarrow> finish now d' c')"
  by pat_completeness auto
termination
  apply (relation "measure (\<lambda>(now, d, c). remaining c)")
   apply simp
  subgoal for now d c x y b
    by (cases c) (auto simp: Let_def split: if_splits prod.splits)
  done

definition run_alone :: "int \<Rightarrow> db \<Rightarrow> request \<Rightarrow> db \<times> response" where
  "run_alone now d rq =
     (case start now d rq of
        (d', Inl r) \<Rightarrow> (d', r)
      | (d', Inr c) \<Rightarrow> finish now d' c)"

text \<open>
  The states the board can be in. A state is the database together with the requests in
  flight; from the empty tables, any request may start at any time, and any request in
  flight may take its next step at any time. A database is reachable when some
  interleaving of requests leaves it.
\<close>

definition spawned :: "response + cont \<Rightarrow> cont list" where
  "spawned x = (case x of Inl r \<Rightarrow> [] | Inr c \<Rightarrow> [c])"

inductive running :: "db \<Rightarrow> cont list \<Rightarrow> bool" where
  running_init: "running empty_db []"
| running_start: "running d cs \<Longrightarrow> start now d rq = (d', x) \<Longrightarrow> running d' (spawned x @ cs)"
| running_resume:
    "running d cs \<Longrightarrow> c \<in> set cs \<Longrightarrow> resume now d c = (d', x) \<Longrightarrow>
     running d' (spawned x @ remove1 c cs)"

definition reachable :: "db \<Rightarrow> bool" where
  "reachable d = (\<exists>cs. running d cs)"

subsection \<open>What a request in flight relies on\<close>

text \<open>
  The facts a request in flight has read or written in its earlier steps and uses in its
  next one, in the form in which no statement of another request undoes them: ledger rows
  are never deleted, a task row keeps its id and its poster, a worker once set stays set,
  a bid row keeps its id and its task.
\<close>

fun cont_ok :: "db \<Rightarrow> cont \<Rightarrow> bool" where
  "cont_ok d (CreateInsert b) = (or_empty (b_poster b) \<in> btc_address ` set (agents d))"
| "cont_ok d (CreateLedger b n) = True"
| "cont_ok d (CreateLog b n) = True"
| "cont_ok d (BidEnsure i b) =
     (\<exists>t\<in>set (tasks d). tid t = i \<and> poster t \<noteq> or_empty (b_bidder b))"
| "cont_ok d (BidInsert i b) =
     ((\<exists>t\<in>set (tasks d). tid t = i \<and> poster t \<noteq> or_empty (b_bidder b)) \<and>
      or_empty (b_bidder b) \<in> btc_address ` set (agents d))"
| "cont_ok d (BidLog i b n) = True"
| "cont_ok d (AcceptUpdate i b bd) =
     (bidder bd \<in> btc_address ` set (agents d) \<and>
      (\<exists>t\<in>set (tasks d). tid t = i \<and> poster t \<noteq> bidder bd) \<and>
      (\<exists>r\<in>set (bids d). bid_id r = ident (b_bid_id b) \<and> task_id r = i))"
| "cont_ok d (AcceptBatch i b bd) =
     (\<exists>r\<in>set (bids d). bid_id r = ident (b_bid_id b) \<and> task_id r = i)"
| "cont_ok d (SubmitBatch i b) = (\<exists>t\<in>set (tasks d). tid t = i \<and> worker t \<noteq> None)"
| "cont_ok d (VerifyBatch i b t) = (\<exists>u\<in>set (tasks d). tid u = i \<and> worker u \<noteq> None)"
| "cont_ok d (CancelBatch i b t) = True"

text \<open>The invariant of the tables, and what every step keeps of the tables before it.\<close>

definition db_ok :: "db \<Rightarrow> bool" where
  "db_ok d =
     (distinct (map tid (tasks d)) \<and> distinct (map bid_id (bids d)) \<and>
      (\<forall>t\<in>set (tasks d).
         poster t \<in> btc_address ` set (agents d) \<and>
         (status t = Open \<longrightarrow> worker t = None) \<and>
         (worker t = None \<longrightarrow> status t = Open \<or> status t = Cancelled) \<and>
         (\<forall>w. worker t = Some w \<longrightarrow> w \<in> btc_address ` set (agents d) \<and> w \<noteq> poster t)) \<and>
      (\<forall>r\<in>set (bids d).
         bidder r \<in> btc_address ` set (agents d) \<and>
         (\<exists>t\<in>set (tasks d). tid t = task_id r \<and> poster t \<noteq> bidder r)))"

definition grows :: "db \<Rightarrow> db \<Rightarrow> bool" where
  "grows d d' =
     (btc_address ` set (agents d) \<subseteq> btc_address ` set (agents d') \<and>
      (\<forall>t\<in>set (tasks d). \<exists>t'\<in>set (tasks d').
         tid t' = tid t \<and> poster t' = poster t \<and> (worker t \<noteq> None \<longrightarrow> worker t' \<noteq> None)) \<and>
      (\<forall>r\<in>set (bids d). \<exists>r'\<in>set (bids d'). bid_id r' = bid_id r \<and> task_id r' = task_id r))"

text \<open>
  The accepted bids of a task, the accept batches in flight for it, and whether the task
  has left the status open.
\<close>

definition accepted_of :: "db \<Rightarrow> nat \<Rightarrow> nat" where
  "accepted_of d i = length (filter (\<lambda>r. task_id r = i \<and> bid_status r = Accepted) (bids d))"

fun accepting :: "nat \<Rightarrow> cont \<Rightarrow> bool" where
  "accepting i (AcceptBatch j b bd) = (j = i)"
| "accepting i c = False"

definition taken :: "db \<Rightarrow> nat \<Rightarrow> bool" where
  "taken d i = (\<exists>t\<in>set (tasks d). tid t = i \<and> status t \<noteq> Open)"

subsection \<open>The ledger figure of the specification\<close>

text \<open>
  The specification's account of an agent's earnings, to compare with the ledger column
  \<open>total_earned_sats\<close> the handlers maintain: the sum of \<open>bounty_sats\<close> over the
  tasks whose worker is the agent and whose status is verified or paid.
\<close>

definition earned_by_tasks :: "task list \<Rightarrow> string \<Rightarrow> int" where
  "earned_by_tasks ts a =
     sum_list (map bounty_sats
       (filter (\<lambda>t. worker t = Some a \<and> (status t = Verified \<or> status t = Paid)) ts))"

subsection \<open>A concrete run\<close>

text \<open>
  The scenario of the specification: alice posts a task with a bounty of 10000, bob bids
  8000 and carol 7000, alice accepts carol's bid, carol submits, alice approves. A second
  run cancels the task while it is open. Every request carries a signature of 88
  characters and the server's own time.
\<close>

definition sig88 :: string where
  "sig88 = replicate 88 (CHR ''A'')"

definition signed :: body where
  "signed = empty_body\<lparr>b_signature := Some sig88, b_timestamp := TsAt 1000\<rparr>"

definition rq_create :: request where
  "rq_create = PostTask (signed\<lparr>b_poster := Some ''alice'', b_title := Some ''board'',
     b_description := Some ''build it'', b_bounty_sats := Some 10000\<rparr>)"

definition rq_bid_bob :: request where
  "rq_bid_bob = PostBid 1 (signed\<lparr>b_bidder := Some ''bob'', b_amount_sats := Some 8000\<rparr>)"

definition rq_bid_carol :: request where
  "rq_bid_carol = PostBid 1 (signed\<lparr>b_bidder := Some ''carol'', b_amount_sats := Some 7000\<rparr>)"

definition rq_accept :: request where
  "rq_accept = PostAccept 1 (signed\<lparr>b_poster := Some ''alice'', b_bid_id := Some 2\<rparr>)"

definition rq_submit :: request where
  "rq_submit = PostSubmit 1 (signed\<lparr>b_worker := Some ''carol'', b_proof_url := Some ''https://x''\<rparr>)"

definition rq_verify :: request where
  "rq_verify = PostVerify 1 (signed\<lparr>b_poster := Some ''alice'', b_approved := Some True\<rparr>)"

definition rq_verify_paid :: request where
  "rq_verify_paid = PostVerify 1 (signed\<lparr>b_poster := Some ''alice'', b_approved := Some True,
     b_payment_tx := Some ''0xabc''\<rparr>)"

definition rq_cancel :: request where
  "rq_cancel = PatchCancel 1 (signed\<lparr>b_poster := Some ''alice''\<rparr>)"

definition st_open :: db where
  "st_open = fst (fetch 1000 empty_db rq_create)"

definition st_bid1 :: db where
  "st_bid1 = fst (fetch 1000 st_open rq_bid_bob)"

definition st_bids :: db where
  "st_bids = fst (fetch 1000 st_bid1 rq_bid_carol)"

definition st_assigned :: db where
  "st_assigned = fst (fetch 1000 st_bids rq_accept)"

definition st_submitted :: db where
  "st_submitted = fst (fetch 1000 st_assigned rq_submit)"

definition st_paid :: db where
  "st_paid = fst (fetch 1000 st_submitted rq_verify_paid)"

definition st_verified :: db where
  "st_verified = fst (fetch 1000 st_submitted rq_verify)"

definition st_cancelled :: db where
  "st_cancelled = fst (fetch 1000 st_open rq_cancel)"

text \<open>
  The rows of the run, written out. The parameters are the columns that change along the
  run: a bidder's reputation and tasks_completed are both given by \<open>rep\<close>.
\<close>

definition lit_alice :: "int \<Rightarrow> int \<Rightarrow> agent" where
  "lit_alice rep spent = \<lparr>btc_address = ''alice'', stx_address = None, display_name = None,
     reputation = rep, tasks_posted = 1, tasks_completed = 0, total_earned_sats = 0,
     total_spent_sats = spent, first_seen = 1000\<rparr>"

definition lit_bidder :: "string \<Rightarrow> int \<Rightarrow> int \<Rightarrow> agent" where
  "lit_bidder a rep earned = \<lparr>btc_address = a, stx_address = None, display_name = None,
     reputation = rep, tasks_posted = 0, tasks_completed = rep, total_earned_sats = earned,
     total_spent_sats = 0, first_seen = 1000\<rparr>"

definition lit_task :: "int \<Rightarrow> task_status \<Rightarrow> string option \<Rightarrow> string option \<Rightarrow> string option \<Rightarrow> task" where
  "lit_task bounty st w pu ptx = \<lparr>tid = 1, poster = ''alice'', title = ''board'',
     description = ''build it'', bounty_sats = bounty, status = st, tags = None, deadline = None,
     worker = w, proof_url = pu, proof_description = None, payment_tx = ptx,
     poster_signature = Some sig88, created_at = 1000, updated_at = 1000\<rparr>"

definition lit_bid :: "nat \<Rightarrow> string \<Rightarrow> int \<Rightarrow> bid_state \<Rightarrow> bid" where
  "lit_bid k a n st = \<lparr>bid_id = k, task_id = 1, bidder = a, amount_sats = n, message = None,
     bid_status = st, bidder_signature = Some sig88, bid_created_at = 1000\<rparr>"

definition lit_act :: "nat \<Rightarrow> string \<Rightarrow> string \<Rightarrow> string \<Rightarrow> activity_row" where
  "lit_act k who what info = \<lparr>act_id = k, act_task_id = 1, actor = who, action = what,
     details = Some info, act_created_at = 1000\<rparr>"

text \<open>
  Two verify requests in flight at once: both have read the task while its status was
  submitted, and each then runs its batch. \<open>verify_in_flight\<close> is what either of them
  holds after its SELECT.
\<close>

definition verify_in_flight :: cont where
  "verify_in_flight =
     VerifyBatch 1 (signed\<lparr>b_poster := Some ''alice'', b_approved := Some True\<rparr>)
       (lit_task 7000 Submitted (Some ''carol'') (Some ''https://x'') None)"

definition st_verified_twice :: db where
  "st_verified_twice = fst (resume 1000 st_verified verify_in_flight)"

text \<open>
  No route writes the bid status withdrawn, so a table that holds a withdrawn bid is
  written by hand: the two pending bids of the run, a withdrawn and a rejected bid on the
  same task, and a pending bid on another task.
\<close>

definition st_mixed :: db where
  "st_mixed = st_bids\<lparr>bids := bids st_bids @
     [lit_bid 3 ''dave'' 6000 Withdrawn, lit_bid 4 ''erin'' 5000 Rejected,
      (lit_bid 5 ''bob'' 9000 Pending)\<lparr>task_id := 2\<rparr>]\<rparr>"

section \<open>Basic facts about the helpers\<close>

lemma find_map_key:
  assumes "\<And>r. P (g r) = P r"
  shows "find P (map g rows) = map_option g (find P rows)"
  by (induction rows) (simp_all add: assms)

lemma fold_max_ge: "(a::nat) \<le> fold max keys a"
  by (induction keys arbitrary: a) (auto intro: order_trans [OF max.cobounded2])

lemma fold_max_mem: "k \<in> set keys \<Longrightarrow> (k::nat) \<le> fold max keys a"
proof (induction keys arbitrary: a)
  case Nil
  then show ?case by simp
next
  case (Cons x keys)
  show ?case
  proof (cases "k = x")
    case True
    have "x \<le> max x a" by simp
    also have "\<dots> \<le> fold max keys (max x a)" by (rule fold_max_ge)
    finally show ?thesis using True by simp
  next
    case False
    with Cons show ?thesis by simp
  qed
qed

lemma last_row_id_fresh: "last_row_id keys \<notin> set keys"
  using fold_max_mem [of "last_row_id keys" keys 0] by (auto simp: last_row_id_def)

lemma last_row_id_fresh_map [simp]: "last_row_id (map f rows) \<notin> f ` set rows"
  using last_row_id_fresh [of "map f rows"] by simp

lemma set_sql_update: "set (sql_update c f rows) = (\<lambda>r. if c r then f r else r) ` set rows"
  by (simp add: sql_update_def)

lemma map_sql_update_key:
  assumes "\<And>r. g (f r) = g r"
  shows "map g (sql_update c f rows) = map g rows"
  by (simp add: sql_update_def assms)

lemma length_sql_update [simp]: "length (sql_update c f rows) = length rows"
  by (simp add: sql_update_def)

lemma sql_changes_zero: "sql_changes c rows = 0 \<longleftrightarrow> (\<forall>r\<in>set rows. \<not> c r)"
  by (auto simp: sql_changes_def filter_empty_conv)

lemma sql_update_none: "\<forall>r\<in>set rows. \<not> c r \<Longrightarrow> sql_update c f rows = rows"
  by (simp add: sql_update_def map_idI)

lemma tasks_insert_activity [simp]: "tasks (insert_activity now i who what info d) = tasks d"
  by (simp add: insert_activity_def)

lemma bids_insert_activity [simp]: "bids (insert_activity now i who what info d) = bids d"
  by (simp add: insert_activity_def)

lemma agents_insert_activity [simp]: "agents (insert_activity now i who what info d) = agents d"
  by (simp add: insert_activity_def)

lemma select_task_SomeD: "select_task d i = Some t \<Longrightarrow> tid t = i \<and> t \<in> set (tasks d)"
  by (auto simp: select_task_def find_Some_iff)

lemma select_bid_SomeD:
  "select_bid d b i = Some r \<Longrightarrow> bid_id r = b \<and> task_id r = i \<and> r \<in> set (bids d)"
  by (auto simp: select_bid_def find_Some_iff)

lemma select_agent_SomeD:
  "select_agent d a = Some r \<Longrightarrow> btc_address r = a \<and> r \<in> set (agents d)"
  by (auto simp: select_agent_def find_Some_iff)

lemma select_task_cong: "tasks d' = tasks d \<Longrightarrow> select_task d' i = select_task d i"
  by (simp add: select_task_def)

lemma select_agent_cong: "agents d' = agents d \<Longrightarrow> select_agent d' a = select_agent d a"
  by (simp add: select_agent_def)

lemma select_task_update:
  assumes "tasks d' = sql_update c f (tasks d)" and "\<And>r. tid (f r) = tid r"
  shows "select_task d' j = map_option (\<lambda>r. if c r then f r else r) (select_task d j)"
  unfolding select_task_def assms(1) sql_update_def
  by (rule find_map_key) (simp add: assms(2))


lemma select_task_distinct:
  "distinct (map tid (tasks d)) \<Longrightarrow> t \<in> set (tasks d) \<Longrightarrow> select_task d (tid t) = Some t"
  unfolding select_task_def
proof (induction "tasks d" arbitrary: d)
  case Nil
  then show ?case by simp
next
  case (Cons x xs)
  from Cons(2) [symmetric] Cons(3,4) show ?case
    using Cons(1) [of "d\<lparr>tasks := xs\<rparr>"] by (auto simp: rev_image_eqI)
qed

lemma validateAuth_address: "validateAuth now b act f = None \<Longrightarrow> truthy (address_field b f)"
  by (auto simp: validateAuth_def split: if_splits)

lemma truthy_SomeD: "truthy x \<Longrightarrow> x = Some (or_empty x) \<and> or_empty x \<noteq> []"
  by (auto simp: truthy_def or_empty_def split: option.splits)

subsection \<open>ensureAgent\<close>

lemma tasks_ensureAgent [simp]: "tasks (ensureAgent now d a dn sx) = tasks d"
  by (simp add: ensureAgent_def)

lemma bids_ensureAgent [simp]: "bids (ensureAgent now d a dn sx) = bids d"
  by (simp add: ensureAgent_def)

lemma activity_ensureAgent [simp]: "activity (ensureAgent now d a dn sx) = activity d"
  by (simp add: ensureAgent_def)

lemma find_append:
  "find P (xs @ ys) = (case find P xs of None \<Rightarrow> find P ys | Some x \<Rightarrow> Some x)"
  by (induction xs) simp_all

lemma addresses_ensureAgent:
  "btc_address ` set (agents (ensureAgent now d a dn sx)) = insert a (btc_address ` set (agents d))"
proof (cases "list_ex (\<lambda>r. btc_address r = a) (agents d)")
  case True
  then have "a \<in> btc_address ` set (agents d)"
    by (auto simp: list_ex_iff)
  moreover have "map btc_address (agents (ensureAgent now d a dn sx)) = map btc_address (agents d)"
    using True by (simp add: ensureAgent_def map_sql_update_key)
  then have "btc_address ` set (agents (ensureAgent now d a dn sx)) = btc_address ` set (agents d)"
    by (metis set_map)
  ultimately show ?thesis by auto
next
  case False
  then show ?thesis
    by (simp add: ensureAgent_def new_agent_def)
qed

lemma agents_ensureAgent_cases:
  assumes "x \<in> set (agents (ensureAgent now d a dn sx))"
  shows "(\<exists>y\<in>set (agents d). btc_address x = btc_address y \<and> reputation x = reputation y
            \<and> total_earned_sats x = total_earned_sats y)
         \<or> (x = new_agent now a (or_null dn) (or_null sx) \<and> a \<notin> btc_address ` set (agents d))"
proof (cases "list_ex (\<lambda>r. btc_address r = a) (agents d)")
  case True
  with assms obtain y where "y \<in> set (agents d)" and
    "x = (if btc_address y = a
          then y\<lparr>display_name := coalesce (or_null dn) (display_name y),
                 stx_address := coalesce (or_null sx) (stx_address y)\<rparr> else y)"
    by (auto simp: ensureAgent_def set_sql_update)
  then show ?thesis
    by (intro disjI1 bexI [of _ y]) (simp_all split: if_splits)
next
  case False
  with assms show ?thesis
    by (auto simp: ensureAgent_def list_ex_iff)
qed

lemma select_agent_ensureAgent:
  "select_agent d x = Some r \<Longrightarrow>
   \<exists>r'. select_agent (ensureAgent now d a dn sx) x = Some r' \<and> reputation r' = reputation r"
  unfolding select_agent_def ensureAgent_def sql_update_def
  by (auto simp: find_map_key find_append split: if_splits)

subsection \<open>What a request does to the tables\<close>

lemma fetch_elim [consumes 1, case_names unchanged created bid accepted submitted verified disputed cancelled]:
  assumes "fetch now d rq = (d', r)"
  obtains
    (unchanged) "d' = d"
  | (created) nt dn sx n where
      "tasks d' = tasks d @ [nt]" "tid nt = last_row_id (map tid (tasks d))" "status nt = Open"
      "worker nt = None" "bids d' = bids d"
      "agents d' = sql_update (\<lambda>a. btc_address a = poster nt)
         (\<lambda>a. a\<lparr>tasks_posted := tasks_posted a + 1, total_spent_sats := total_spent_sats a + n\<rparr>)
         (agents (ensureAgent now d (poster nt) dn sx))"
  | (bid) i t nb dn sx where
      "select_task d i = Some t" "status t = Open" "poster t \<noteq> bidder nb" "tasks d' = tasks d"
      "bids d' = bids d @ [nb]" "bid_id nb = last_row_id (map bid_id (bids d))" "task_id nb = i"
      "bid_status nb = Pending" "agents d' = agents (ensureAgent now d (bidder nb) dn sx)"
  | (accepted) i b bd p where
      "select_bid d b i = Some bd" "\<exists>t\<in>set (tasks d). accept_guard i p t"
      "tasks d' = sql_update (accept_guard i p)
         (\<lambda>t. t\<lparr>status := Assigned, worker := Some (bidder bd), bounty_sats := amount_sats bd,
                updated_at := now\<rparr>) (tasks d)"
      "bids d' = sql_update (\<lambda>r. task_id r = i \<and> bid_id r \<noteq> b \<and> bid_status r = Pending)
         (\<lambda>r. r\<lparr>bid_status := Rejected\<rparr>)
         (sql_update (\<lambda>r. bid_id r = b) (\<lambda>r. r\<lparr>bid_status := Accepted\<rparr>) (bids d))"
      "agents d' = agents d"
  | (submitted) i t pu pd where
      "select_task d i = Some t" "status t = Assigned" "worker t \<noteq> None"
      "tasks d' = sql_update (\<lambda>r. tid r = i)
         (\<lambda>r. r\<lparr>status := Submitted, proof_url := pu, proof_description := pd, updated_at := now\<rparr>)
         (tasks d)"
      "bids d' = bids d" "agents d' = agents d"
  | (verified) i t ns ptx where
      "select_task d i = Some t" "status t = Submitted" "ns = Paid \<or> ns = Verified"
      "tasks d' = sql_update (\<lambda>r. tid r = i)
         (\<lambda>r. r\<lparr>status := ns, payment_tx := ptx, updated_at := now\<rparr>) (tasks d)"
      "bids d' = bids d"
      "agents d' = sql_update (\<lambda>a. btc_address a = poster t) (\<lambda>a. a\<lparr>reputation := reputation a + 1\<rparr>)
         (sql_update (\<lambda>a. Some (btc_address a) = worker t)
            (\<lambda>a. a\<lparr>tasks_completed := tasks_completed a + 1,
                   total_earned_sats := total_earned_sats a + bounty_sats t,
                   reputation := reputation a + 1\<rparr>) (agents d))"
  | (disputed) i t where
      "select_task d i = Some t" "status t = Submitted"
      "tasks d' = sql_update (\<lambda>r. tid r = i) (\<lambda>r. r\<lparr>status := Disputed, updated_at := now\<rparr>) (tasks d)"
      "bids d' = bids d" "agents d' = agents d"
  | (cancelled) i t where
      "select_task d i = Some t" "status t = Open"
      "tasks d' = sql_update (\<lambda>r. tid r = i) (\<lambda>r. r\<lparr>status := Cancelled, updated_at := now\<rparr>) (tasks d)"
      "bids d' = bids d"
      "agents d' = sql_update (\<lambda>a. btc_address a = poster t)
         (\<lambda>a. a\<lparr>total_spent_sats := total_spent_sats a - bounty_sats t\<rparr>) (agents d)"
proof (cases rq)
  case (PostTask b)
  show ?thesis
  proof (cases "d' = d")
    case True
    then show ?thesis by (rule unchanged)
  next
    case False
    with assms PostTask show ?thesis
      by (intro created [where nt = "last (tasks d')" and n = "num (b_bounty_sats b)"
              and dn = "b_poster_name b" and sx = "b_poster_stx b"])
        (auto simp: create_task_def Let_def insert_task_def split: if_splits option.splits)
  qed
next
  case (PostBid i b)
  show ?thesis
  proof (cases "d' = d")
    case True
    then show ?thesis by (rule unchanged)
  next
    case False
    with assms PostBid show ?thesis
      by (intro bid [where i = i and t = "the (select_task d i)" and nb = "last (bids d')"
              and dn = "b_bidder_name b" and sx = "b_bidder_stx b"])
        (auto simp: place_bid_def Let_def insert_bid_def split: if_splits option.splits)
  qed
next
  case (PostAccept i b)
  show ?thesis
  proof (cases "d' = d")
    case True
    then show ?thesis by (rule unchanged)
  next
    case False
    with assms PostAccept show ?thesis
      by (intro accepted [where b = "ident (b_bid_id b)" and i = i
              and bd = "the (select_bid d (ident (b_bid_id b)) i)" and p = "or_empty (b_poster b)"])
        (auto simp: accept_bid_def accept_update_def accept_cascade_def Let_def sql_changes_zero
              sql_update_none split: if_splits option.splits)
  qed
next
  case (PostSubmit i b)
  show ?thesis
  proof (cases "d' = d")
    case True
    then show ?thesis by (rule unchanged)
  next
    case False
    with assms PostSubmit show ?thesis
      by (intro submitted [where i = i and t = "the (select_task d i)" and pu = "b_proof_url b"
              and pd = "or_null (b_description b)"])
        (auto simp: submit_work_def Let_def truthy_def split: if_splits option.splits)
  qed
next
  case (PostVerify i b)
  show ?thesis
  proof (cases "d' = d")
    case True
    then show ?thesis by (rule unchanged)
  next
    case False
    note neq = this
    show ?thesis
    proof (cases "b_approved b = Some True")
      case True
      with neq assms PostVerify show ?thesis
        by (intro verified [where i = i and t = "the (select_task d i)"
                and ns = "if truthy (b_payment_tx b) then Paid else Verified"
                and ptx = "or_null (b_payment_tx b)"])
          (auto simp: verify_work_def Let_def split: if_splits option.splits)
    next
      case False
      with neq assms PostVerify show ?thesis
        by (intro disputed [where i = i and t = "the (select_task d i)"])
          (auto simp: verify_work_def Let_def split: if_splits option.splits)
    qed
  qed
next
  case (PatchCancel i b)
  show ?thesis
  proof (cases "d' = d")
    case True
    then show ?thesis by (rule unchanged)
  next
    case False
    with assms PatchCancel show ?thesis
      by (intro cancelled [where i = i and t = "the (select_task d i)"])
        (auto simp: cancel_task_def Let_def split: if_splits option.splits)
  qed
qed

section \<open>Invariants of the reachable states\<close>

subsection \<open>More facts about rows and updates\<close>

lemma select_task_unique:
  assumes "distinct (map tid (tasks d))" and "select_task d i = Some t"
    and "r \<in> set (tasks d)" and "tid r = i"
  shows "r = t"
  using select_task_distinct [OF assms(1,3)] assms(2,4) by simp

lemma find_sql_update:
  assumes "\<And>r. P (f r) = P r"
  shows "find P (sql_update c f rows) = map_option (\<lambda>r. if c r then f r else r) (find P rows)"
  unfolding sql_update_def by (rule find_map_key) (simp add: assms)

lemma image_sql_update:
  assumes "\<And>r. g (f r) = g r"
  shows "g ` set (sql_update c f rows) = g ` set rows"
  using map_sql_update_key [of g f c rows, OF assms] by (metis set_map)

lemma sql_update_memD:
  "x \<in> set (sql_update c f rows) \<Longrightarrow> \<exists>y\<in>set rows. x = (if c y then f y else y)"
  by (auto simp: set_sql_update)

lemma select_agent_exists:
  "a \<in> btc_address ` set (agents d) \<Longrightarrow> \<exists>x. select_agent d a = Some x"
  unfolding select_agent_def by (cases "find (\<lambda>r. btc_address r = a) (agents d)") (auto simp: find_None_iff)

lemma cascade_bids:
  "sql_update (\<lambda>r. task_id r = i \<and> bid_id r \<noteq> b \<and> bid_status r = Pending)
     (\<lambda>r. r\<lparr>bid_status := Rejected\<rparr>)
     (sql_update (\<lambda>r. bid_id r = b) (\<lambda>r. r\<lparr>bid_status := Accepted\<rparr>) rows)
   = map (\<lambda>r. if bid_id r = b then r\<lparr>bid_status := Accepted\<rparr>
               else if task_id r = i \<and> bid_status r = Pending then r\<lparr>bid_status := Rejected\<rparr>
               else r) rows"
  by (simp add: sql_update_def)

lemma select_task_tid_mem: "select_task d i = Some t \<Longrightarrow> i \<in> tid ` set (tasks d)"
  using select_task_SomeD [of d i t] by (auto intro: rev_image_eqI)

lemma distinct_key_unique:
  assumes "distinct (map f rows)" and "x \<in> set rows" and "y \<in> set rows" and "f x = f y"
  shows "x = y"
  using assms by (meson distinct_map inj_onD)

lemma length_filter_mono:
  "\<forall>x\<in>set rows. P x \<longrightarrow> Q x \<Longrightarrow> length (filter P rows) \<le> length (filter Q rows)"
  by (induction rows) auto

lemma length_filter_key:
  "distinct (map f rows) \<Longrightarrow> length (filter (\<lambda>x. f x = k) rows) \<le> 1"
proof (induction rows)
  case Nil
  then show ?case by simp
next
  case (Cons x rows)
  show ?case
  proof (cases "f x = k")
    case True
    have "\<forall>y\<in>set rows. f y \<noteq> k"
    proof (intro ballI notI)
      fix y assume "y \<in> set rows" and "f y = k"
      with True have "f x \<in> f ` set rows" by (metis imageI)
      with Cons.prems show False by simp
    qed
    then have "filter (\<lambda>x. f x = k) rows = []" by (simp add: filter_empty_conv)
    with True show ?thesis by simp
  next
    case False
    with Cons show ?thesis by simp
  qed
qed

lemma sql_update_Cons:
  "sql_update c f (x # rows) = (if c x then f x else x) # sql_update c f rows"
  by (simp add: sql_update_def)

subsection \<open>A request that runs alone\<close>

lemma fetch_run_alone: "fetch now d rq = run_alone now d rq"
proof (cases rq)
  case (PostTask b)
  then show ?thesis
    by (simp add: run_alone_def create_task_def Let_def insert_task_def split: option.splits)
next
  case (PostBid i b)
  then show ?thesis
    by (simp add: run_alone_def place_bid_def Let_def insert_bid_def split: option.splits)
next
  case (PostAccept i b)
  then show ?thesis
    by (simp add: run_alone_def accept_bid_def split: option.splits prod.splits)
next
  case (PostSubmit i b)
  then show ?thesis
    by (simp add: run_alone_def submit_work_def Let_def split: option.splits)
next
  case (PostVerify i b)
  then show ?thesis
    by (simp add: run_alone_def verify_work_def Let_def split: option.splits)
next
  case (PatchCancel i b)
  then show ?thesis
    by (simp add: run_alone_def cancel_task_def Let_def split: option.splits)
qed

lemma running_finish: "running d (c # cs) \<Longrightarrow> running (fst (finish now d c)) cs"
proof (induction now d c rule: finish.induct)
  case (1 now d c)
  obtain d' x where r: "resume now d c = (d', x)"
    by (cases "resume now d c")
  from "1.prems" r have next_state: "running d' (spawned x @ cs)"
    using running_resume [of d "c # cs" c now d' x] by simp
  show ?case
  proof (cases x)
    case (Inl resp)
    with next_state r show ?thesis
      by (simp add: spawned_def)
  next
    case (Inr c')
    with next_state have "running d' (c' # cs)"
      by (simp add: spawned_def)
    then have "running (fst (finish now d' c')) cs"
      by (rule "1.IH" [OF r [symmetric] Inr])
    with r Inr show ?thesis by simp
  qed
qed

lemma running_fetch: "running d cs \<Longrightarrow> running (fst (fetch now d rq)) cs"
proof -
  assume run: "running d cs"
  obtain d' x where s: "start now d rq = (d', x)"
    by (cases "start now d rq")
  from running_start [OF run s] have first: "running d' (spawned x @ cs)" .
  show ?thesis
  proof (cases x)
    case (Inl resp)
    with first s show ?thesis
      by (simp add: fetch_run_alone run_alone_def spawned_def)
  next
    case (Inr c)
    with first have "running d' (c # cs)"
      by (simp add: spawned_def)
    then have "running (fst (finish now d' c)) cs"
      by (rule running_finish)
    with s Inr show ?thesis
      by (simp add: fetch_run_alone run_alone_def)
  qed
qed

lemma reachable_init: "reachable empty_db"
  unfolding reachable_def using running_init by blast

lemma reachable_step: "reachable d \<Longrightarrow> reachable (fst (fetch now d rq))"
  unfolding reachable_def using running_fetch by blast



subsection \<open>What a step keeps\<close>

lemma sql_update_mem: "r \<in> set rows \<Longrightarrow> (if c r then f r else r) \<in> set (sql_update c f rows)"
  by (simp add: set_sql_update)

lemma grows_refl: "grows d d"
  by (auto simp: grows_def)

lemma grows_agents:
  assumes "tasks d' = tasks d" and "bids d' = bids d"
    and "btc_address ` set (agents d) \<subseteq> btc_address ` set (agents d')"
  shows "grows d d'"
  using assms by (auto simp: grows_def)

lemma grows_tasks:
  assumes "btc_address ` set (agents d) \<subseteq> btc_address ` set (agents d')" and "bids d' = bids d"
    and "tasks d' = sql_update c f (tasks d)"
    and "\<And>r. tid (f r) = tid r \<and> poster (f r) = poster r \<and> worker (f r) \<noteq> None \<or> worker (f r) = worker r \<and> tid (f r) = tid r \<and> poster (f r) = poster r"
  shows "grows d d'"
  unfolding grows_def
proof (intro conjI ballI)
  show "btc_address ` set (agents d) \<subseteq> btc_address ` set (agents d')"
    by (rule assms(1))
next
  fix t assume "t \<in> set (tasks d)"
  then have "(if c t then f t else t) \<in> set (tasks d')"
    unfolding assms(3) by (rule sql_update_mem)
  moreover have "tid (if c t then f t else t) = tid t \<and> poster (if c t then f t else t) = poster t \<and>
      (worker t \<noteq> None \<longrightarrow> worker (if c t then f t else t) \<noteq> None)"
    using assms(4) [of t] by auto
  ultimately show "\<exists>t'\<in>set (tasks d'). tid t' = tid t \<and> poster t' = poster t \<and>
      (worker t \<noteq> None \<longrightarrow> worker t' \<noteq> None)"
    by blast
next
  fix r assume "r \<in> set (bids d)"
  then show "\<exists>r'\<in>set (bids d'). bid_id r' = bid_id r \<and> task_id r' = task_id r"
    by (auto simp: assms(2))
qed

lemma grows_bids:
  assumes "agents d' = agents d" and "tasks d' = tasks d" and "bids d' = map g (bids d)"
    and "\<And>r. bid_id (g r) = bid_id r \<and> task_id (g r) = task_id r"
  shows "grows d d'"
  unfolding grows_def
proof (intro conjI ballI)
  show "btc_address ` set (agents d) \<subseteq> btc_address ` set (agents d')"
    by (simp add: assms(1))
next
  fix t assume "t \<in> set (tasks d)"
  then show "\<exists>t'\<in>set (tasks d'). tid t' = tid t \<and> poster t' = poster t \<and>
      (worker t \<noteq> None \<longrightarrow> worker t' \<noteq> None)"
    by (auto simp: assms(2))
next
  fix r assume "r \<in> set (bids d)"
  then have "g r \<in> set (bids d')"
    by (simp add: assms(3))
  with assms(4) [of r] show "\<exists>r'\<in>set (bids d'). bid_id r' = bid_id r \<and> task_id r' = task_id r"
    by blast
qed

lemma start_cases:
  assumes "start now d rq = (d', x)"
  shows "d' = d \<or> (\<exists>b. rq = PostTask b \<and> x = Inr (CreateInsert b) \<and>
           d' = ensureAgent now d (or_empty (b_poster b)) (b_poster_name b) (b_poster_stx b))"
  using assms by (cases rq) (auto split: if_splits option.splits)

lemma start_grows: "start now d rq = (d', x) \<Longrightarrow> grows d d'"
  using start_cases [of now d rq d' x]
  by (auto simp: grows_refl addresses_ensureAgent intro!: grows_agents)

lemma resume_grows: "resume now d c = (d', x) \<Longrightarrow> grows d d'"
proof (cases c)
  case (CreateInsert b)
  assume "resume now d c = (d', x)"
  with CreateInsert show ?thesis
    by (auto simp: grows_def insert_task_def)
next
  case (CreateLedger b n)
  assume "resume now d c = (d', x)"
  with CreateLedger show ?thesis
    by (auto intro!: grows_agents simp: image_sql_update)
next
  case (CreateLog b n)
  assume "resume now d c = (d', x)"
  with CreateLog show ?thesis
    by (auto intro!: grows_agents)
next
  case (BidEnsure i b)
  assume "resume now d c = (d', x)"
  with BidEnsure show ?thesis
    by (auto intro!: grows_agents simp: addresses_ensureAgent)
next
  case (BidInsert i b)
  assume "resume now d c = (d', x)"
  with BidInsert show ?thesis
    by (auto simp: grows_def insert_bid_def)
next
  case (BidLog i b n)
  assume "resume now d c = (d', x)"
  with BidLog show ?thesis
    by (auto intro!: grows_agents)
next
  case (AcceptUpdate i b bd)
  let ?f = "\<lambda>t. t\<lparr>status := Assigned, worker := Some (bidder bd),
                 bounty_sats := amount_sats bd, updated_at := now\<rparr>"
  assume "resume now d c = (d', x)"
  with AcceptUpdate have "btc_address ` set (agents d) \<subseteq> btc_address ` set (agents d')"
    and "bids d' = bids d"
    and "tasks d' = sql_update (accept_guard i (or_empty (b_poster b))) ?f (tasks d)"
    by (auto simp: accept_update_def split: if_splits)
  from grows_tasks [OF this] show ?thesis
    by simp
next
  case (AcceptBatch i b bd)
  assume "resume now d c = (d', x)"
  with AcceptBatch have "tasks d' = tasks d" and "agents d' = agents d"
    and "bids d' = map (\<lambda>r. if bid_id r = ident (b_bid_id b) then r\<lparr>bid_status := Accepted\<rparr>
               else if task_id r = i \<and> bid_status r = Pending then r\<lparr>bid_status := Rejected\<rparr>
               else r) (bids d)"
    by (auto simp: accept_cascade_def Let_def cascade_bids)
  from grows_bids [OF this(2,1,3)] show ?thesis
    by simp
next
  case (SubmitBatch i b)
  let ?f = "\<lambda>r. r\<lparr>status := Submitted, proof_url := b_proof_url b,
                    proof_description := or_null (b_description b), updated_at := now\<rparr>"
  assume "resume now d c = (d', x)"
  with SubmitBatch have "btc_address ` set (agents d) \<subseteq> btc_address ` set (agents d')"
    and "bids d' = bids d"
    and "tasks d' = sql_update (\<lambda>r. tid r = i) ?f (tasks d)"
    by auto
  from grows_tasks [OF this] show ?thesis
    by simp
next
  case (VerifyBatch i b t)
  assume "resume now d c = (d', x)"
  with VerifyBatch obtain f where "tasks d' = sql_update (\<lambda>r. tid r = i) f (tasks d)"
    and "\<And>r. worker (f r) = worker r \<and> tid (f r) = tid r \<and> poster (f r) = poster r"
    and "bids d' = bids d" and "btc_address ` set (agents d) \<subseteq> btc_address ` set (agents d')"
    by (cases "b_approved b = Some True") (auto simp: Let_def image_sql_update)
  from grows_tasks [OF this(4,3,1)] this(2) show ?thesis
    by simp
next
  case (CancelBatch i b t)
  assume "resume now d c = (d', x)"
  with CancelBatch obtain f where "tasks d' = sql_update (\<lambda>r. tid r = i) f (tasks d)"
    and "\<And>r. worker (f r) = worker r \<and> tid (f r) = tid r \<and> poster (f r) = poster r"
    and "bids d' = bids d" and "btc_address ` set (agents d) \<subseteq> btc_address ` set (agents d')"
    by (auto simp: Let_def image_sql_update)
  from grows_tasks [OF this(4,3,1)] this(2) show ?thesis
    by simp
qed

lemma cont_ok_grows: "grows d d' \<Longrightarrow> cont_ok d c \<Longrightarrow> cont_ok d' c"
proof -
  assume g: "grows d d'" and ok: "cont_ok d c"
  from g have a: "x \<in> btc_address ` set (agents d) \<Longrightarrow> x \<in> btc_address ` set (agents d')" for x
    unfolding grows_def by blast
  from g have t: "\<exists>t\<in>set (tasks d). tid t = i \<and> poster t \<noteq> p \<Longrightarrow>
      \<exists>t\<in>set (tasks d'). tid t = i \<and> poster t \<noteq> p" for i p
    unfolding grows_def by metis
  from g have w: "\<exists>t\<in>set (tasks d). tid t = i \<and> worker t \<noteq> None \<Longrightarrow>
      \<exists>t\<in>set (tasks d'). tid t = i \<and> worker t \<noteq> None" for i
    unfolding grows_def by metis
  from g have r: "\<exists>r\<in>set (bids d). bid_id r = k \<and> task_id r = i \<Longrightarrow>
      \<exists>r\<in>set (bids d'). bid_id r = k \<and> task_id r = i" for i k
    unfolding grows_def by metis
  from ok show ?thesis
    by (cases c) (simp_all add: a t w [simplified] r)
qed

subsection \<open>The invariant of the tables\<close>

lemma db_ok_agents:
  assumes "db_ok d" and "tasks d' = tasks d" and "bids d' = bids d"
    and "btc_address ` set (agents d) \<subseteq> btc_address ` set (agents d')"
  shows "db_ok d'"
  using assms unfolding db_ok_def by (simp only: subset_iff) blast

lemma db_ok_bids:
  assumes "db_ok d" and "tasks d' = tasks d" and "agents d' = agents d"
    and "bids d' = map g (bids d)"
    and "\<And>r. bid_id (g r) = bid_id r \<and> task_id (g r) = task_id r \<and> bidder (g r) = bidder r"
  shows "db_ok d'"
proof -
  have "map bid_id (bids d') = map bid_id (bids d)"
    by (simp add: assms(4,5))
  moreover have "\<forall>r\<in>set (bids d'). bidder r \<in> btc_address ` set (agents d') \<and>
        (\<exists>t\<in>set (tasks d'). tid t = task_id r \<and> poster t \<noteq> bidder r)"
  proof
    fix r assume "r \<in> set (bids d')"
    then obtain r0 where "r0 \<in> set (bids d)" and "r = g r0"
      by (auto simp: assms(4))
    with assms(1) assms(5) [of r0] show "bidder r \<in> btc_address ` set (agents d') \<and>
        (\<exists>t\<in>set (tasks d'). tid t = task_id r \<and> poster t \<noteq> bidder r)"
      unfolding db_ok_def assms(2,3) by simp
  qed
  ultimately show ?thesis
    using assms(1) unfolding db_ok_def assms(2,3) by simp
qed

lemma db_ok_new_task:
  assumes "db_ok d" and "tasks d' = tasks d @ [nt]" and "agents d' = agents d" and "bids d' = bids d"
    and "tid nt = last_row_id (map tid (tasks d))" and "status nt = Open" and "worker nt = None"
    and "poster nt \<in> btc_address ` set (agents d)"
  shows "db_ok d'"
  using assms unfolding db_ok_def by auto

lemma db_ok_new_bid:
  assumes "db_ok d" and "bids d' = bids d @ [nb]" and "agents d' = agents d" and "tasks d' = tasks d"
    and "bid_id nb = last_row_id (map bid_id (bids d))"
    and "bidder nb \<in> btc_address ` set (agents d)"
    and "\<exists>t\<in>set (tasks d). tid t = task_id nb \<and> poster t \<noteq> bidder nb"
  shows "db_ok d'"
  using assms unfolding db_ok_def by auto

lemma db_ok_tasks:
  assumes ok: "db_ok d" and bids: "bids d' = bids d"
    and sub: "btc_address ` set (agents d) \<subseteq> btc_address ` set (agents d')"
    and tasks: "tasks d' = sql_update c f (tasks d)"
    and keep: "\<And>r. tid (f r) = tid r \<and> poster (f r) = poster r"
    and row: "\<And>t. t \<in> set (tasks d) \<Longrightarrow> c t \<Longrightarrow>
       status (f t) \<noteq> Open \<and> (worker (f t) = None \<longrightarrow> status (f t) = Cancelled) \<and>
       (\<forall>w. worker (f t) = Some w \<longrightarrow> w \<in> btc_address ` set (agents d) \<and> w \<noteq> poster t)"
  shows "db_ok d'"
proof -
  have a: "x \<in> btc_address ` set (agents d) \<Longrightarrow> x \<in> btc_address ` set (agents d')" for x
    using sub by blast
  have ids: "map tid (tasks d') = map tid (tasks d)"
    unfolding tasks by (rule map_sql_update_key) (simp add: keep)
  have t: "\<forall>t\<in>set (tasks d').
         poster t \<in> btc_address ` set (agents d') \<and>
         (status t = Open \<longrightarrow> worker t = None) \<and>
         (worker t = None \<longrightarrow> status t = Open \<or> status t = Cancelled) \<and>
         (\<forall>w. worker t = Some w \<longrightarrow> w \<in> btc_address ` set (agents d') \<and> w \<noteq> poster t)"
  proof
    fix t assume "t \<in> set (tasks d')"
    then obtain t0 where t0: "t0 \<in> set (tasks d)" and t: "t = (if c t0 then f t0 else t0)"
      unfolding tasks by (auto dest: sql_update_memD)
    from ok t0 have old: "poster t0 \<in> btc_address ` set (agents d) \<and>
         (status t0 = Open \<longrightarrow> worker t0 = None) \<and>
         (worker t0 = None \<longrightarrow> status t0 = Open \<or> status t0 = Cancelled) \<and>
         (\<forall>w. worker t0 = Some w \<longrightarrow> w \<in> btc_address ` set (agents d) \<and> w \<noteq> poster t0)"
      unfolding db_ok_def by blast
    show "poster t \<in> btc_address ` set (agents d') \<and>
         (status t = Open \<longrightarrow> worker t = None) \<and>
         (worker t = None \<longrightarrow> status t = Open \<or> status t = Cancelled) \<and>
         (\<forall>w. worker t = Some w \<longrightarrow> w \<in> btc_address ` set (agents d') \<and> w \<noteq> poster t)"
    proof (cases "c t0")
      case True
      with row [OF t0 True] keep [of t0] old t show ?thesis
        by (auto intro: a)
    next
      case False
      with old t show ?thesis
        by (auto intro: a)
    qed
  qed
  have b: "\<forall>r\<in>set (bids d'). bidder r \<in> btc_address ` set (agents d') \<and>
        (\<exists>t\<in>set (tasks d'). tid t = task_id r \<and> poster t \<noteq> bidder r)"
  proof
    fix r assume "r \<in> set (bids d')"
    with ok bids obtain t0 where "bidder r \<in> btc_address ` set (agents d)"
      and t0: "t0 \<in> set (tasks d)" and "tid t0 = task_id r \<and> poster t0 \<noteq> bidder r"
      unfolding db_ok_def by auto
    moreover from t0 have "(if c t0 then f t0 else t0) \<in> set (tasks d')"
      unfolding tasks by (rule sql_update_mem)
    moreover have "tid (if c t0 then f t0 else t0) = tid t0 \<and> poster (if c t0 then f t0 else t0) = poster t0"
      using keep [of t0] by simp
    ultimately have "bidder r \<in> btc_address ` set (agents d')"
      and "\<exists>t\<in>set (tasks d'). tid t = task_id r \<and> poster t \<noteq> bidder r"
      by (auto intro: a simp del: if_split split del: if_split intro!: bexI [of _ "if c t0 then f t0 else t0"])
    then show "bidder r \<in> btc_address ` set (agents d') \<and>
        (\<exists>t\<in>set (tasks d'). tid t = task_id r \<and> poster t \<noteq> bidder r)"
      by simp
  qed
  from ok have "distinct (map tid (tasks d))" and "distinct (map bid_id (bids d))"
    unfolding db_ok_def by simp_all
  with ids bids t b show ?thesis
    unfolding db_ok_def by simp
qed

lemma db_ok_unique_task:
  "db_ok d \<Longrightarrow> t \<in> set (tasks d) \<Longrightarrow> u \<in> set (tasks d) \<Longrightarrow> tid t = tid u \<Longrightarrow> t = u"
  unfolding db_ok_def by (blast intro: distinct_key_unique)

lemma db_ok_unique_bid:
  "db_ok d \<Longrightarrow> r \<in> set (bids d) \<Longrightarrow> s \<in> set (bids d) \<Longrightarrow> bid_id r = bid_id s \<Longrightarrow> r = s"
  unfolding db_ok_def by (blast intro: distinct_key_unique)

lemma start_db_ok: "db_ok d \<Longrightarrow> start now d rq = (d', x) \<Longrightarrow> db_ok d'"
  using start_cases [of now d rq d' x]
  by (auto intro: db_ok_agents simp: addresses_ensureAgent)

lemma start_cont_ok:
  assumes ok: "db_ok d" and s: "start now d rq = (d', x)" and c: "c \<in> set (spawned x)"
  shows "cont_ok d' c"
proof (cases rq)
  case (PostTask b)
  with s c show ?thesis
    by (auto simp: spawned_def addresses_ensureAgent split: if_splits option.splits)
next
  case (PostBid i b)
  with s c show ?thesis
    by (auto simp: spawned_def split: if_splits option.splits dest!: select_task_SomeD)
next
  case (PostAccept i b)
  with s c obtain bd where c: "c = AcceptUpdate i b bd" and d: "d' = d"
    and bd: "select_bid d (ident (b_bid_id b)) i = Some bd"
    by (auto simp: spawned_def split: if_splits option.splits)
  from select_bid_SomeD [OF bd] have m: "bd \<in> set (bids d)" and k: "bid_id bd = ident (b_bid_id b)"
    and i: "task_id bd = i"
    by simp_all
  from ok m have "bidder bd \<in> btc_address ` set (agents d)"
    and "\<exists>t\<in>set (tasks d). tid t = task_id bd \<and> poster t \<noteq> bidder bd"
    unfolding db_ok_def by blast+
  with m k i show ?thesis
    unfolding c d by auto
next
  case (PostSubmit i b)
  with s c obtain t where c: "c = SubmitBatch i b" and d: "d' = d"
    and t: "select_task d i = Some t" and w: "worker t = b_worker b" and tr: "truthy (b_worker b)"
    by (auto simp: spawned_def split: if_splits option.splits)
  from select_task_SomeD [OF t] have m: "t \<in> set (tasks d)" and i: "tid t = i"
    by simp_all
  from w tr have "worker t \<noteq> None"
    by (auto simp: truthy_def split: option.splits)
  with m i show ?thesis
    unfolding c d by auto
next
  case (PostVerify i b)
  with s c obtain t where c: "c = VerifyBatch i b t" and d: "d' = d"
    and t: "select_task d i = Some t" and st: "status t = Submitted"
    by (auto simp: spawned_def split: if_splits option.splits)
  from select_task_SomeD [OF t] have m: "t \<in> set (tasks d)" and i: "tid t = i"
    by simp_all
  from ok m st have "worker t \<noteq> None"
    unfolding db_ok_def by auto
  with m i show ?thesis
    unfolding c d by auto
next
  case (PatchCancel i b)
  with s c show ?thesis
    by (auto simp: spawned_def split: if_splits option.splits)
qed

lemma resume_db_ok:
  assumes ok: "db_ok d" and c: "cont_ok d c" and r: "resume now d c = (d', x)"
  shows "db_ok d'"
proof (cases c)
  case (CreateInsert b)
  with r c show ?thesis
    by (intro db_ok_new_task [OF ok, where nt = "last (tasks d')"]) (auto simp: insert_task_def)
next
  case (CreateLedger b n)
  with r show ?thesis
    by (intro db_ok_agents [OF ok]) (auto simp: image_sql_update)
next
  case (CreateLog b n)
  with r show ?thesis
    by (intro db_ok_agents [OF ok]) auto
next
  case (BidEnsure i b)
  with r show ?thesis
    by (intro db_ok_agents [OF ok]) (auto simp: addresses_ensureAgent)
next
  case (BidInsert i b)
  with r c show ?thesis
    by (intro db_ok_new_bid [OF ok, where nb = "last (bids d')"]) (auto simp: insert_bid_def)
next
  case (BidLog i b n)
  with r show ?thesis
    by (intro db_ok_agents [OF ok]) auto
next
  case (AcceptUpdate i b bd)
  let ?f = "\<lambda>t. t\<lparr>status := Assigned, worker := Some (bidder bd),
                 bounty_sats := amount_sats bd, updated_at := now\<rparr>"
  from r AcceptUpdate have "bids d' = bids d"
    and "btc_address ` set (agents d) \<subseteq> btc_address ` set (agents d')"
    and "tasks d' = sql_update (accept_guard i (or_empty (b_poster b))) ?f (tasks d)"
    by (auto simp: accept_update_def split: if_splits)
  then show ?thesis
  proof (rule db_ok_tasks [OF ok])
    show "tid (?f r) = tid r \<and> poster (?f r) = poster r" for r
      by simp
  next
    fix t assume t: "t \<in> set (tasks d)" and g: "accept_guard i (or_empty (b_poster b)) t"
    from c AcceptUpdate obtain u where u: "u \<in> set (tasks d)" "tid u = i" "poster u \<noteq> bidder bd"
      and a: "bidder bd \<in> btc_address ` set (agents d)"
      by auto
    from g have "tid t = i" by (simp add: accept_guard_def)
    with db_ok_unique_task [OF ok t u(1)] u(2) have "t = u" by simp
    with u a show "status (?f t) \<noteq> Open \<and> (worker (?f t) = None \<longrightarrow> status (?f t) = Cancelled) \<and>
       (\<forall>w. worker (?f t) = Some w \<longrightarrow> w \<in> btc_address ` set (agents d) \<and> w \<noteq> poster t)"
      by simp
  qed
next
  case (AcceptBatch i b bd)
  let ?g = "\<lambda>r. if bid_id r = ident (b_bid_id b) then r\<lparr>bid_status := Accepted\<rparr>
               else if task_id r = i \<and> bid_status r = Pending then r\<lparr>bid_status := Rejected\<rparr>
               else r"
  from r AcceptBatch have "tasks d' = tasks d" and "agents d' = agents d"
    and "bids d' = map ?g (bids d)"
    by (auto simp: accept_cascade_def Let_def cascade_bids)
  then show ?thesis
    by (rule db_ok_bids [OF ok]) simp
next
  case (SubmitBatch i b)
  let ?f = "\<lambda>r. r\<lparr>status := Submitted, proof_url := b_proof_url b,
                    proof_description := or_null (b_description b), updated_at := now\<rparr>"
  from r SubmitBatch have "bids d' = bids d"
    and "btc_address ` set (agents d) \<subseteq> btc_address ` set (agents d')"
    and "tasks d' = sql_update (\<lambda>r. tid r = i) ?f (tasks d)"
    by auto
  then show ?thesis
  proof (rule db_ok_tasks [OF ok])
    show "tid (?f r) = tid r \<and> poster (?f r) = poster r" for r
      by simp
  next
    fix t assume t: "t \<in> set (tasks d)" and g: "tid t = i"
    from c SubmitBatch obtain u where u: "u \<in> set (tasks d)" "tid u = i" "worker u \<noteq> None"
      by auto
    with db_ok_unique_task [OF ok t u(1)] g have "t = u" by simp
    with u ok show "status (?f t) \<noteq> Open \<and> (worker (?f t) = None \<longrightarrow> status (?f t) = Cancelled) \<and>
       (\<forall>w. worker (?f t) = Some w \<longrightarrow> w \<in> btc_address ` set (agents d) \<and> w \<noteq> poster t)"
      unfolding db_ok_def by auto
  qed
next
  case (VerifyBatch i b s)
  from r VerifyBatch obtain f ns where tables: "bids d' = bids d"
    "btc_address ` set (agents d) \<subseteq> btc_address ` set (agents d')"
    "tasks d' = sql_update (\<lambda>r. tid r = i) f (tasks d)"
    and f: "\<And>r. tid (f r) = tid r \<and> poster (f r) = poster r \<and> worker (f r) = worker r \<and> status (f r) = ns"
    and ns: "ns \<noteq> Open"
    by (cases "b_approved b = Some True") (auto simp: Let_def image_sql_update)
  from tables show ?thesis
  proof (rule db_ok_tasks [OF ok])
    show "tid (f r) = tid r \<and> poster (f r) = poster r" for r
      by (simp add: f)
  next
    fix t assume t: "t \<in> set (tasks d)" and g: "tid t = i"
    from c VerifyBatch obtain u where u: "u \<in> set (tasks d)" "tid u = i" "worker u \<noteq> None"
      by auto
    with db_ok_unique_task [OF ok t u(1)] g have "t = u" by simp
    with u ok ns show "status (f t) \<noteq> Open \<and> (worker (f t) = None \<longrightarrow> status (f t) = Cancelled) \<and>
       (\<forall>w. worker (f t) = Some w \<longrightarrow> w \<in> btc_address ` set (agents d) \<and> w \<noteq> poster t)"
      unfolding db_ok_def by (auto simp: f)
  qed
next
  case (CancelBatch i b s)
  let ?f = "\<lambda>r. r\<lparr>status := Cancelled, updated_at := now\<rparr>"
  from r CancelBatch have "bids d' = bids d"
    and "btc_address ` set (agents d) \<subseteq> btc_address ` set (agents d')"
    and "tasks d' = sql_update (\<lambda>r. tid r = i) ?f (tasks d)"
    by (auto simp: Let_def image_sql_update)
  then show ?thesis
  proof (rule db_ok_tasks [OF ok])
    show "tid (?f r) = tid r \<and> poster (?f r) = poster r" for r
      by simp
  next
    fix t assume t: "t \<in> set (tasks d)" and g: "tid t = i"
    with ok show "status (?f t) \<noteq> Open \<and> (worker (?f t) = None \<longrightarrow> status (?f t) = Cancelled) \<and>
       (\<forall>w. worker (?f t) = Some w \<longrightarrow> w \<in> btc_address ` set (agents d) \<and> w \<noteq> poster t)"
      unfolding db_ok_def by auto
  qed
qed

lemma resume_cont_ok:
  assumes c: "cont_ok d c" and r: "resume now d c = (d', x)" and c': "c' \<in> set (spawned x)"
  shows "cont_ok d' c'"
proof (cases c)
  case (BidEnsure i b)
  with c r c' show ?thesis
    by (auto simp: spawned_def addresses_ensureAgent)
next
  case (AcceptUpdate i b bd)
  with c r c' show ?thesis
    by (auto simp: spawned_def accept_update_def split: if_splits)
qed (use r c' in \<open>auto simp: spawned_def Let_def split: if_splits\<close>)

lemma running_sound: "running d cs \<Longrightarrow> db_ok d \<and> (\<forall>c\<in>set cs. cont_ok d c)"
proof (induction rule: running.induct)
  case running_init
  then show ?case
    by (simp add: db_ok_def empty_db_def)
next
  case (running_start d cs now rq d' x)
  then have ok: "db_ok d" and cs: "\<forall>c\<in>set cs. cont_ok d c"
    by simp_all
  from start_grows [OF running_start.hyps(2)] cs have "\<forall>c\<in>set cs. cont_ok d' c"
    by (auto intro: cont_ok_grows)
  with start_db_ok [OF ok running_start.hyps(2)] start_cont_ok [OF ok running_start.hyps(2)]
  show ?case by auto
next
  case (running_resume d cs c now d' x)
  then have ok: "db_ok d" and cs: "\<forall>c\<in>set cs. cont_ok d c"
    by simp_all
  from cs running_resume.hyps(2) have c: "cont_ok d c"
    by simp
  from resume_grows [OF running_resume.hyps(3)] cs have "\<forall>c\<in>set cs. cont_ok d' c"
    by (auto intro: cont_ok_grows)
  then have "\<forall>c'\<in>set (remove1 c cs). cont_ok d' c'"
    by (auto dest: notin_set_remove1)
  with resume_db_ok [OF ok c running_resume.hyps(3)] resume_cont_ok [OF c running_resume.hyps(3)]
  show ?case by auto
qed

lemma reachable_db_ok: "reachable d \<Longrightarrow> db_ok d"
  unfolding reachable_def using running_sound by blast


lemma reachable_distinct_bids: "reachable d \<Longrightarrow> distinct (map bid_id (bids d))"
  using reachable_db_ok [of d] by (simp add: db_ok_def)

lemma reachable_open_no_worker:
  "reachable d \<Longrightarrow> \<forall>t\<in>set (tasks d). status t = Open \<longrightarrow> worker t = None"
  using reachable_db_ok [of d] by (simp add: db_ok_def)

lemma reachable_worker_status:
  "reachable d \<Longrightarrow> \<forall>t\<in>set (tasks d). worker t = None \<longrightarrow> status t = Open \<or> status t = Cancelled"
  using reachable_db_ok [of d] by (simp add: db_ok_def)

lemma reachable_poster_agent:
  "reachable d \<Longrightarrow> \<forall>t\<in>set (tasks d). poster t \<in> btc_address ` set (agents d)"
  using reachable_db_ok [of d] by (simp add: db_ok_def)

lemma reachable_worker_agent:
  "reachable d \<Longrightarrow> \<forall>t\<in>set (tasks d). \<forall>w. worker t = Some w \<longrightarrow> w \<in> btc_address ` set (agents d)"
  using reachable_db_ok [of d] by (simp add: db_ok_def)

lemma reachable_worker_not_poster:
  "reachable d \<Longrightarrow> \<forall>t\<in>set (tasks d). worker t \<noteq> Some (poster t)"
  using reachable_db_ok [of d] unfolding db_ok_def by blast

subsection \<open>Accepted bids\<close>

lemma length_filter_pos: "c \<in> set cs \<Longrightarrow> P c \<Longrightarrow> 0 < length (filter P cs)"
  by (auto simp: filter_empty_conv)

lemma length_filter_remove1:
  "length (filter P (remove1 c cs)) = length (filter P cs) - (if c \<in> set cs \<and> P c then 1 else 0)"
  by (induction cs) (auto dest: length_filter_pos)

lemma start_quiet:
  assumes "start now d rq = (d', x)"
  shows "tasks d' = tasks d \<and> bids d' = bids d \<and> filter (accepting i) (spawned x) = []"
  using assms by (cases rq) (auto simp: spawned_def split: if_splits option.splits)

lemma taken_tasks:
  assumes "tasks d' = sql_update c f (tasks d)" and "\<And>r. tid (f r) = tid r \<and> status (f r) \<noteq> Open"
    and "taken d i"
  shows "taken d' i"
proof -
  from assms(3) obtain t where t: "t \<in> set (tasks d)" and "tid t = i" and "status t \<noteq> Open"
    by (auto simp: taken_def)
  with assms(2) [of t] have "tid (if c t then f t else t) = i \<and> status (if c t then f t else t) \<noteq> Open"
    by simp
  moreover from t have "(if c t then f t else t) \<in> set (tasks d')"
    unfolding assms(1) by (rule sql_update_mem)
  ultimately show ?thesis
    unfolding taken_def by blast
qed

lemma resume_taken:
  assumes "resume now d c = (d', x)" and "taken d i"
  shows "taken d' i"
proof (cases c)
  case (CreateInsert b)
  with assms show ?thesis
    by (auto simp: taken_def insert_task_def)
next
  case (AcceptUpdate j b bd)
  with assms(1) have "tasks d' = sql_update (accept_guard j (or_empty (b_poster b)))
          (\<lambda>t. t\<lparr>status := Assigned, worker := Some (bidder bd),
                 bounty_sats := amount_sats bd, updated_at := now\<rparr>) (tasks d)"
    by (auto simp: accept_update_def split: if_splits)
  then show ?thesis
    by (rule taken_tasks) (simp_all add: assms(2))
next
  case (SubmitBatch j b)
  with assms(1) have "tasks d' = sql_update (\<lambda>r. tid r = j)
             (\<lambda>r. r\<lparr>status := Submitted, proof_url := b_proof_url b,
                    proof_description := or_null (b_description b), updated_at := now\<rparr>) (tasks d)"
    by auto
  then show ?thesis
    by (rule taken_tasks) (simp_all add: assms(2))
next
  case (VerifyBatch j b s)
  with assms(1) obtain f where "tasks d' = sql_update (\<lambda>r. tid r = j) f (tasks d)"
    and "\<And>r. tid (f r) = tid r \<and> status (f r) \<noteq> Open"
    by (cases "b_approved b = Some True") (auto simp: Let_def)
  then show ?thesis
    using assms(2) by (rule taken_tasks)
next
  case (CancelBatch j b s)
  with assms(1) have "tasks d' = sql_update (\<lambda>r. tid r = j)
             (\<lambda>r. r\<lparr>status := Cancelled, updated_at := now\<rparr>) (tasks d)"
    by (auto simp: Let_def)
  then show ?thesis
    by (rule taken_tasks) (simp_all add: assms(2))
qed (use assms in \<open>auto simp: taken_def accept_cascade_def insert_bid_def Let_def\<close>)

lemma resume_other:
  assumes "resume now d c = (d', x)" and "\<forall>j b bd. c \<noteq> AcceptUpdate j b bd \<and> c \<noteq> AcceptBatch j b bd"
  shows "accepted_of d' i = accepted_of d i \<and> filter (accepting i) (spawned x) = [] \<and> \<not> accepting i c"
  using assms
  by (cases c) (auto simp: accepted_of_def spawned_def insert_bid_def insert_task_def Let_def split: if_splits)

lemma running_accepted:
  "running d cs \<Longrightarrow>
   accepted_of d i + length (filter (accepting i) cs) \<le> (if taken d i then 1 else 0)"
proof (induction rule: running.induct)
  case running_init
  then show ?case
    by (simp add: accepted_of_def empty_db_def)
next
  case (running_start d cs now rq d' x)
  from start_quiet [OF running_start.hyps(2), of i] running_start.IH show ?case
    by (simp add: accepted_of_def taken_def)
next
  case (running_resume d cs c now d' x)
  note step = running_resume.hyps(3)
  note IH = running_resume.IH
  from running_sound [OF running_resume.hyps(1)] running_resume.hyps(2)
  have ok: "db_ok d" and c: "cont_ok d c"
    by simp_all
  note mono = resume_taken [OF step, of i]
  show ?case
  proof (cases "\<forall>j b bd. c \<noteq> AcceptUpdate j b bd \<and> c \<noteq> AcceptBatch j b bd")
    case True
    from resume_other [OF step True, of i] IH mono show ?thesis
      by (auto simp: length_filter_remove1 split: if_splits)
  next
    case False
    then consider (upd) j b bd where "c = AcceptUpdate j b bd" | (batch) j b bd where "c = AcceptBatch j b bd"
      by blast
    then show ?thesis
    proof cases
      case upd
      let ?g = "accept_guard j (or_empty (b_poster b))"
      from step upd have bids: "bids d' = bids d"
        and x: "x = (if sql_changes ?g (tasks d) = 0
                     then Inl (json (Error ''Task already accepted or not open, or not your task'') 409)
                     else Inr (AcceptBatch j b bd))"
        by (auto simp: accept_update_def split: if_splits)
      from bids have acc: "accepted_of d' i = accepted_of d i"
        by (simp add: accepted_of_def)
      from upd have rem: "length (filter (accepting i) (remove1 c cs)) = length (filter (accepting i) cs)"
        by (simp add: length_filter_remove1)
      show ?thesis
      proof (cases "sql_changes ?g (tasks d) \<noteq> 0 \<and> j = i")
        case False
        with x have "filter (accepting i) (spawned x) = []"
          by (auto simp: spawned_def)
        with acc rem IH mono show ?thesis
          by (auto split: if_splits)
      next
        case True
        then obtain t where t: "t \<in> set (tasks d)" and g: "?g t"
          by (auto simp: sql_changes_zero)
        have "\<not> taken d i"
        proof
          assume "taken d i"
          then obtain u where u: "u \<in> set (tasks d)" and "tid u = i" and o: "status u \<noteq> Open"
            by (auto simp: taken_def)
          with g True have "tid t = tid u"
            by (simp add: accept_guard_def)
          from db_ok_unique_task [OF ok t u this] g o show False
            by (simp add: accept_guard_def)
        qed
        with IH have zero: "accepted_of d i = 0" "length (filter (accepting i) cs) = 0"
          by simp_all
        from step upd have "tasks d' = sql_update ?g
          (\<lambda>t. t\<lparr>status := Assigned, worker := Some (bidder bd),
                 bounty_sats := amount_sats bd, updated_at := now\<rparr>) (tasks d)"
          by (auto simp: accept_update_def split: if_splits)
        with t g have "t\<lparr>status := Assigned, worker := Some (bidder bd),
                 bounty_sats := amount_sats bd, updated_at := now\<rparr> \<in> set (tasks d')"
          by (auto simp: set_sql_update intro!: rev_image_eqI [of t])
        moreover from g True have "tid (t\<lparr>status := Assigned, worker := Some (bidder bd),
                 bounty_sats := amount_sats bd, updated_at := now\<rparr>) = i \<and>
            status (t\<lparr>status := Assigned, worker := Some (bidder bd),
                 bounty_sats := amount_sats bd, updated_at := now\<rparr>) \<noteq> Open"
          by (simp add: accept_guard_def)
        ultimately have "taken d' i"
          unfolding taken_def by blast
        with acc rem zero x True show ?thesis
          by (simp add: spawned_def)
      qed
    next
      case batch
      let ?k = "ident (b_bid_id b)"
      let ?g = "\<lambda>r. if bid_id r = ?k then r\<lparr>bid_status := Accepted\<rparr>
               else if task_id r = j \<and> bid_status r = Pending then r\<lparr>bid_status := Rejected\<rparr>
               else r"
      let ?P = "\<lambda>r. task_id r = i \<and> bid_status r = Accepted"
      from step batch have tasks: "tasks d' = tasks d" and bids: "bids d' = map ?g (bids d)"
        and x: "spawned x = []"
        by (auto simp: accept_cascade_def Let_def cascade_bids spawned_def)
      from tasks have tk: "taken d' i = taken d i"
        by (simp add: taken_def)
      from c batch obtain r0 where r0: "r0 \<in> set (bids d)" "bid_id r0 = ?k" "task_id r0 = j"
        by auto
      have key: "task_id r = j" if "r \<in> set (bids d)" and "bid_id r = ?k" for r
        using db_ok_unique_bid [OF ok that(1) r0(1)] that(2) r0(2,3) by simp
      have acc': "accepted_of d' i = length (filter (\<lambda>r. ?P (?g r)) (bids d))"
        by (simp add: accepted_of_def bids filter_map comp_def)
      show ?thesis
      proof (cases "j = i")
        case False
        have "\<forall>r\<in>set (bids d). ?P (?g r) = ?P r"
          using key False by auto
        then have "filter (\<lambda>r. ?P (?g r)) (bids d) = filter ?P (bids d)"
          by (intro filter_cong refl) blast
        with acc' have "accepted_of d' i = accepted_of d i"
          by (simp add: accepted_of_def)
        moreover from batch False
        have "length (filter (accepting i) (remove1 c cs)) = length (filter (accepting i) cs)"
          by (simp add: length_filter_remove1)
        ultimately show ?thesis
          using IH tk x by simp
      next
        case True
        from batch True have ac: "accepting i c"
          by simp
        from ac running_resume.hyps(2)
        have rem: "length (filter (accepting i) (remove1 c cs)) = length (filter (accepting i) cs) - 1"
          by (simp add: length_filter_remove1)
        from running_resume.hyps(2) ac have pos: "0 < length (filter (accepting i) cs)"
          by (rule length_filter_pos)
        have tk0: "taken d i"
        proof (rule ccontr)
          assume "\<not> taken d i"
          with IH have "length (filter (accepting i) cs) = 0"
            by simp
          with pos show False
            by simp
        qed
        with IH have le: "accepted_of d i + length (filter (accepting i) cs) \<le> 1"
          by simp
        from le pos have zero: "accepted_of d i = 0"
          by arith
        from le pos have one: "length (filter (accepting i) cs) = 1"
          by arith
        from zero have none: "\<forall>r\<in>set (bids d). \<not> ?P r"
          by (simp add: accepted_of_def filter_empty_conv)
        have "\<forall>r\<in>set (bids d). ?P (?g r) \<longrightarrow> bid_id r = ?k"
          using none by (auto split: if_splits)
        then have "length (filter (\<lambda>r. ?P (?g r)) (bids d)) \<le> length (filter (\<lambda>r. bid_id r = ?k) (bids d))"
          by (rule length_filter_mono)
        also from ok have "\<dots> \<le> 1"
          unfolding db_ok_def by (intro length_filter_key) simp
        finally have "accepted_of d' i \<le> 1"
          by (simp add: acc')
        with rem one tk tk0 x show ?thesis
          by simp
      qed
    qed
  qed
qed

lemma reachable_one_accepted:
  "reachable d \<Longrightarrow> length (filter (\<lambda>r. task_id r = j \<and> bid_status r = Accepted) (bids d)) \<le> 1"
proof -
  assume "reachable d"
  then obtain cs where "running d cs"
    by (auto simp: reachable_def)
  from running_accepted [OF this, of j] show ?thesis
    by (auto simp: accepted_of_def split: if_splits)
qed

subsection \<open>What a step does to a task row\<close>

lemma start_tasks: "start now d rq = (d', x) \<Longrightarrow> tasks d' = tasks d"
  using start_cases [of now d rq d' x] by auto

lemma select_task_moved:
  assumes "tasks d' = sql_update (\<lambda>r. tid r = j) f (tasks d)" and "\<And>r. tid (f r) = tid r"
    and "select_task d i = Some t"
  shows "select_task d' i = Some (if i = j then f t else t)"
  using select_task_update [OF assms(1,2), of i] assms(3) select_task_SomeD [OF assms(3)] by simp

lemma resume_task_row:
  assumes r: "resume now d c = (d', x)" and sel: "select_task d i = Some t"
  shows "\<exists>t'. select_task d' i = Some t' \<and> tid t' = tid t \<and> poster t' = poster t \<and>
           (t' = t \<or>
            status t = Open \<and> status t' = Assigned \<and> worker t' \<noteq> None \<or>
            worker t' = worker t \<and> status t' \<noteq> Open \<and> status t' \<noteq> Assigned)"
proof (cases c)
  case (CreateInsert b)
  with r sel show ?thesis
    by (auto simp: select_task_def insert_task_def find_append)
next
  case (AcceptUpdate j b bd)
  let ?f = "\<lambda>t. t\<lparr>status := Assigned, worker := Some (bidder bd),
                 bounty_sats := amount_sats bd, updated_at := now\<rparr>"
  from r AcceptUpdate
  have "tasks d' = sql_update (accept_guard j (or_empty (b_poster b))) ?f (tasks d)"
    by (auto simp: accept_update_def split: if_splits)
  from select_task_update [OF this, of i] sel show ?thesis
    by (auto simp: accept_guard_def)
next
  case (SubmitBatch j b)
  let ?f = "\<lambda>r. r\<lparr>status := Submitted, proof_url := b_proof_url b,
                    proof_description := or_null (b_description b), updated_at := now\<rparr>"
  from r SubmitBatch have "tasks d' = sql_update (\<lambda>r. tid r = j) ?f (tasks d)"
    by auto
  from select_task_moved [OF this _ sel] show ?thesis
    by auto
next
  case (VerifyBatch j b s)
  from r VerifyBatch obtain f where "tasks d' = sql_update (\<lambda>r. tid r = j) f (tasks d)"
    and f: "\<And>r. tid (f r) = tid r \<and> poster (f r) = poster r \<and> worker (f r) = worker r \<and>
             status (f r) \<noteq> Open \<and> status (f r) \<noteq> Assigned"
    by (cases "b_approved b = Some True") (auto simp: Let_def)
  from select_task_moved [OF this(1) _ sel] f show ?thesis
    by auto
next
  case (CancelBatch j b s)
  let ?f = "\<lambda>r. r\<lparr>status := Cancelled, updated_at := now\<rparr>"
  from r CancelBatch have "tasks d' = sql_update (\<lambda>r. tid r = j) ?f (tasks d)"
    by (auto simp: Let_def)
  from select_task_moved [OF this _ sel] show ?thesis
    by auto
qed (use r sel in \<open>auto simp: select_task_def insert_bid_def accept_cascade_def Let_def\<close>)

lemma resume_task_new:
  assumes r: "resume now d c = (d', x)" and none: "select_task d i = None"
    and some: "select_task d' i = Some u"
  shows "status u = Open \<and> worker u = None \<and> (\<exists>b. c = CreateInsert b)"
proof (cases c)
  case (CreateInsert b)
  with r none some show ?thesis
    by (auto simp: select_task_def insert_task_def find_append split: if_splits)
next
  case (AcceptUpdate j b bd)
  let ?f = "\<lambda>t. t\<lparr>status := Assigned, worker := Some (bidder bd),
                 bounty_sats := amount_sats bd, updated_at := now\<rparr>"
  from r AcceptUpdate
  have "tasks d' = sql_update (accept_guard j (or_empty (b_poster b))) ?f (tasks d)"
    by (auto simp: accept_update_def split: if_splits)
  from select_task_update [OF this, of i] none some show ?thesis
    by simp
next
  case (SubmitBatch j b)
  let ?f = "\<lambda>r. r\<lparr>status := Submitted, proof_url := b_proof_url b,
                    proof_description := or_null (b_description b), updated_at := now\<rparr>"
  from r SubmitBatch have "tasks d' = sql_update (\<lambda>r. tid r = j) ?f (tasks d)"
    by auto
  from select_task_update [OF this, of i] none some show ?thesis
    by simp
next
  case (VerifyBatch j b s)
  from r VerifyBatch obtain f where "tasks d' = sql_update (\<lambda>r. tid r = j) f (tasks d)"
    and f: "\<And>r. tid (f r) = tid r"
    by (cases "b_approved b = Some True") (auto simp: Let_def)
  from select_task_update [OF this, of i] none some show ?thesis
    by simp
next
  case (CancelBatch j b s)
  let ?f = "\<lambda>r. r\<lparr>status := Cancelled, updated_at := now\<rparr>"
  from r CancelBatch have "tasks d' = sql_update (\<lambda>r. tid r = j) ?f (tasks d)"
    by (auto simp: Let_def)
  from select_task_update [OF this, of i] none some show ?thesis
    by simp
qed (use r none some in \<open>auto simp: select_task_def insert_bid_def accept_cascade_def Let_def\<close>)

subsection \<open>What a step does to the bids\<close>

lemma resume_accept_batch_bids:
  "bids (fst (resume now d (AcceptBatch i b bd)))
     = map (\<lambda>x. if bid_id x = ident (b_bid_id b) then x\<lparr>bid_status := Accepted\<rparr>
                else if task_id x = i \<and> bid_status x = Pending then x\<lparr>bid_status := Rejected\<rparr>
                else x) (bids d)"
  by (simp add: accept_cascade_def Let_def cascade_bids)

lemma resume_keeps_accepted:
  assumes "x \<in> set (bids d)" and "bid_status x = Accepted"
  shows "x \<in> set (bids (fst (resume now d c)))"
proof (cases c)
  case (AcceptBatch j b bd)
  let ?g = "\<lambda>r. if bid_id r = ident (b_bid_id b) then r\<lparr>bid_status := Accepted\<rparr>
            else if task_id r = j \<and> bid_status r = Pending then r\<lparr>bid_status := Rejected\<rparr> else r"
  from assms(2) have "x\<lparr>bid_status := Accepted\<rparr> = x"
    by (cases x) simp
  with assms(2) have "?g x = x"
    by simp
  moreover from assms(1) have "?g x \<in> ?g ` set (bids d)"
    by (rule imageI)
  ultimately have "x \<in> ?g ` set (bids d)"
    by simp
  then show ?thesis
    unfolding AcceptBatch resume_accept_batch_bids by simp
next
  case (AcceptUpdate j b bd)
  with assms(1) show ?thesis
    by (simp add: accept_update_def split: prod.splits)
qed (use assms(1) in \<open>auto simp: insert_task_def insert_bid_def Let_def\<close>)

section \<open>The concrete run, evaluated\<close>

declare string_of_nat.simps [simp del]

lemma string_of_nat_digit: "n < 10 \<Longrightarrow> string_of_nat n = [digit_char n]"
  by (simp add: string_of_nat.simps)

lemma string_of_nat_step:
  "10 \<le> n \<Longrightarrow> string_of_nat n = string_of_nat (n div 10) @ [digit_char (n mod 10)]"
  by (subst string_of_nat.simps) simp

lemmas string_of_int_eval = string_of_int_def string_of_nat_step string_of_nat_digit digit_char_def

lemma length_sig88: "length sig88 = 88"
  by (simp add: sig88_def)

lemma sig88_nonempty: "sig88 \<noteq> []"
  using length_sig88 by auto

lemma signed_fields:
  "b_poster signed = None" "b_title signed = None" "b_description signed = None"
  "b_bounty_sats signed = None" "b_tags signed = None" "b_deadline signed = None"
  "b_poster_name signed = None" "b_poster_stx signed = None" "b_signature signed = Some sig88"
  "b_timestamp signed = TsAt 1000" "b_bidder signed = None" "b_amount_sats signed = None"
  "b_message signed = None" "b_bidder_name signed = None" "b_bidder_stx signed = None"
  "b_bid_id signed = None" "b_worker signed = None" "b_proof_url signed = None"
  "b_approved signed = None" "b_payment_tx signed = None" "b_reason signed = None"
  by (simp_all add: signed_def empty_body_def)

lemmas run_eval =
  create_task_def place_bid_def accept_bid_def submit_work_def verify_work_def cancel_task_def
  accept_update_def accept_cascade_def accept_guard_def sql_changes_def
  Let_def truthy_def truthy_num_def truthy_id_def num_def ident_def coalesce_def
  or_empty_def or_null_def json_def ensureAgent_def insert_task_def insert_bid_def
  insert_activity_def validateAuth_def address_field_def sql_update_def last_row_id_def
  new_agent_def select_task_def select_bid_def select_agent_def
  signed_fields length_sig88 sig88_nonempty string_of_int_eval

lemmas lit_defs = lit_alice_def lit_bidder_def lit_task_def lit_bid_def lit_act_def

lemma st_open_eq:
  "st_open = \<lparr>agents = [lit_alice 0 10000], tasks = [lit_task 10000 Open None None None],
     bids = [], activity = [lit_act 1 ''alice'' ''created'' ''Bounty: 10000 sats'']\<rparr>"
  by (simp add: st_open_def rq_create_def empty_db_def run_eval lit_defs)

lemma st_bid1_eq:
  "st_bid1 = \<lparr>agents = [lit_alice 0 10000, lit_bidder ''bob'' 0 0],
     tasks = [lit_task 10000 Open None None None],
     bids = [lit_bid 1 ''bob'' 8000 Pending],
     activity = [lit_act 1 ''alice'' ''created'' ''Bounty: 10000 sats'',
                 lit_act 2 ''bob'' ''bid'' ''8000 sats: '']\<rparr>"
  by (simp add: st_bid1_def st_open_eq rq_bid_bob_def run_eval lit_defs)

lemma st_bids_eq:
  "st_bids = \<lparr>agents = [lit_alice 0 10000, lit_bidder ''bob'' 0 0, lit_bidder ''carol'' 0 0],
     tasks = [lit_task 10000 Open None None None],
     bids = [lit_bid 1 ''bob'' 8000 Pending, lit_bid 2 ''carol'' 7000 Pending],
     activity = [lit_act 1 ''alice'' ''created'' ''Bounty: 10000 sats'',
                 lit_act 2 ''bob'' ''bid'' ''8000 sats: '',
                 lit_act 3 ''carol'' ''bid'' ''7000 sats: '']\<rparr>"
  by (simp add: st_bids_def st_bid1_eq rq_bid_carol_def run_eval lit_defs)

lemma st_assigned_eq:
  "st_assigned = \<lparr>agents = [lit_alice 0 10000, lit_bidder ''bob'' 0 0, lit_bidder ''carol'' 0 0],
     tasks = [lit_task 7000 Assigned (Some ''carol'') None None],
     bids = [lit_bid 1 ''bob'' 8000 Rejected, lit_bid 2 ''carol'' 7000 Accepted],
     activity = [lit_act 1 ''alice'' ''created'' ''Bounty: 10000 sats'',
                 lit_act 2 ''bob'' ''bid'' ''8000 sats: '',
                 lit_act 3 ''carol'' ''bid'' ''7000 sats: '',
                 lit_act 4 ''alice'' ''accepted_bid'' ''Assigned to carol for 7000 sats'']\<rparr>"
  by (simp add: st_assigned_def st_bids_eq rq_accept_def run_eval lit_defs)

lemma st_submitted_eq:
  "st_submitted = \<lparr>agents = [lit_alice 0 10000, lit_bidder ''bob'' 0 0, lit_bidder ''carol'' 0 0],
     tasks = [lit_task 7000 Submitted (Some ''carol'') (Some ''https://x'') None],
     bids = [lit_bid 1 ''bob'' 8000 Rejected, lit_bid 2 ''carol'' 7000 Accepted],
     activity = [lit_act 1 ''alice'' ''created'' ''Bounty: 10000 sats'',
                 lit_act 2 ''bob'' ''bid'' ''8000 sats: '',
                 lit_act 3 ''carol'' ''bid'' ''7000 sats: '',
                 lit_act 4 ''alice'' ''accepted_bid'' ''Assigned to carol for 7000 sats'',
                 lit_act 5 ''carol'' ''submitted'' ''https://x'']\<rparr>"
  by (simp add: st_submitted_def st_assigned_eq rq_submit_def run_eval lit_defs)

lemma st_verified_eq:
  "st_verified = \<lparr>agents = [lit_alice 1 10000, lit_bidder ''bob'' 0 0, lit_bidder ''carol'' 1 7000],
     tasks = [lit_task 7000 Verified (Some ''carol'') (Some ''https://x'') None],
     bids = [lit_bid 1 ''bob'' 8000 Rejected, lit_bid 2 ''carol'' 7000 Accepted],
     activity = [lit_act 1 ''alice'' ''created'' ''Bounty: 10000 sats'',
                 lit_act 2 ''bob'' ''bid'' ''8000 sats: '',
                 lit_act 3 ''carol'' ''bid'' ''7000 sats: '',
                 lit_act 4 ''alice'' ''accepted_bid'' ''Assigned to carol for 7000 sats'',
                 lit_act 5 ''carol'' ''submitted'' ''https://x'',
                 lit_act 6 ''alice'' ''verified'' ''Approved. Awaiting payment.'']\<rparr>"
  by (simp add: st_verified_def st_submitted_eq rq_verify_def run_eval lit_defs)

lemma st_paid_eq:
  "st_paid = \<lparr>agents = [lit_alice 1 10000, lit_bidder ''bob'' 0 0, lit_bidder ''carol'' 1 7000],
     tasks = [lit_task 7000 Paid (Some ''carol'') (Some ''https://x'') (Some ''0xabc'')],
     bids = [lit_bid 1 ''bob'' 8000 Rejected, lit_bid 2 ''carol'' 7000 Accepted],
     activity = [lit_act 1 ''alice'' ''created'' ''Bounty: 10000 sats'',
                 lit_act 2 ''bob'' ''bid'' ''8000 sats: '',
                 lit_act 3 ''carol'' ''bid'' ''7000 sats: '',
                 lit_act 4 ''alice'' ''accepted_bid'' ''Assigned to carol for 7000 sats'',
                 lit_act 5 ''carol'' ''submitted'' ''https://x'',
                 lit_act 6 ''alice'' ''verified'' ''Approved. Paid: 0xabc'']\<rparr>"
  by (simp add: st_paid_def st_submitted_eq rq_verify_paid_def run_eval lit_defs)

lemma st_cancelled_eq:
  "st_cancelled = \<lparr>agents = [lit_alice 0 0], tasks = [lit_task 10000 Cancelled None None None],
     bids = [], activity = [lit_act 1 ''alice'' ''created'' ''Bounty: 10000 sats'',
                            lit_act 2 ''alice'' ''cancelled'' ''Task cancelled'']\<rparr>"
  by (simp add: st_cancelled_def st_open_eq rq_cancel_def run_eval lit_defs)

lemma reachable_st_open: "reachable st_open"
  unfolding st_open_def by (intro reachable_step reachable_init)

lemma reachable_st_bid1: "reachable st_bid1"
  unfolding st_bid1_def by (intro reachable_step reachable_st_open)

lemma reachable_st_bids: "reachable st_bids"
  unfolding st_bids_def by (intro reachable_step reachable_st_bid1)

lemma reachable_st_assigned: "reachable st_assigned"
  unfolding st_assigned_def by (intro reachable_step reachable_st_bids)

lemma reachable_st_submitted: "reachable st_submitted"
  unfolding st_submitted_def by (intro reachable_step reachable_st_assigned)

lemma reachable_st_verified: "reachable st_verified"
  unfolding st_verified_def by (intro reachable_step reachable_st_submitted)

lemma reachable_st_paid: "reachable st_paid"
  unfolding st_paid_def by (intro reachable_step reachable_st_submitted)

lemma reachable_st_cancelled: "reachable st_cancelled"
  unfolding st_cancelled_def by (intro reachable_step reachable_st_open)

lemma run_create: "fetch 1000 empty_db rq_create = (st_open, json (TaskCreated 1) 201)"
proof -
  have "snd (fetch 1000 empty_db rq_create) = json (TaskCreated 1) 201"
    by (simp add: empty_db_def rq_create_def run_eval)
  then show ?thesis by (simp add: st_open_def prod_eq_iff)
qed

lemma run_bid_bob: "fetch 1000 st_open rq_bid_bob = (st_bid1, json (BidCreated 1) 201)"
proof -
  have "snd (fetch 1000 st_open rq_bid_bob) = json (BidCreated 1) 201"
    by (simp add: st_open_eq rq_bid_bob_def run_eval lit_defs)
  then show ?thesis by (simp add: st_bid1_def prod_eq_iff)
qed

lemma run_bid_carol: "fetch 1000 st_bid1 rq_bid_carol = (st_bids, json (BidCreated 2) 201)"
proof -
  have "snd (fetch 1000 st_bid1 rq_bid_carol) = json (BidCreated 2) 201"
    by (simp add: st_bid1_eq rq_bid_carol_def run_eval lit_defs)
  then show ?thesis by (simp add: st_bids_def prod_eq_iff)
qed

lemma run_accept: "fetch 1000 st_bids rq_accept = (st_assigned, json (AcceptedWorker ''carol'') 200)"
proof -
  have "snd (fetch 1000 st_bids rq_accept) = json (AcceptedWorker ''carol'') 200"
    by (simp add: st_bids_eq rq_accept_def run_eval lit_defs)
  then show ?thesis by (simp add: st_assigned_def prod_eq_iff)
qed

lemma run_submit: "fetch 1000 st_assigned rq_submit = (st_submitted, json Success 200)"
proof -
  have "snd (fetch 1000 st_assigned rq_submit) = json Success 200"
    by (simp add: st_assigned_eq rq_submit_def run_eval lit_defs)
  then show ?thesis by (simp add: st_submitted_def prod_eq_iff)
qed

lemma run_verify: "fetch 1000 st_submitted rq_verify = (st_verified, json (VerifyResult Verified) 200)"
proof -
  have "snd (fetch 1000 st_submitted rq_verify) = json (VerifyResult Verified) 200"
    by (simp add: st_submitted_eq rq_verify_def run_eval lit_defs)
  then show ?thesis by (simp add: st_verified_def prod_eq_iff)
qed

lemma run_verify_paid:
  "fetch 1000 st_submitted rq_verify_paid = (st_paid, json (VerifyResult Verified) 200)"
proof -
  have "snd (fetch 1000 st_submitted rq_verify_paid) = json (VerifyResult Verified) 200"
    by (simp add: st_submitted_eq rq_verify_paid_def run_eval lit_defs)
  then show ?thesis by (simp add: st_paid_def prod_eq_iff)
qed


lemma st_mixed_eq:
  "st_mixed = \<lparr>agents = [lit_alice 0 10000, lit_bidder ''bob'' 0 0, lit_bidder ''carol'' 0 0],
     tasks = [lit_task 10000 Open None None None],
     bids = [lit_bid 1 ''bob'' 8000 Pending, lit_bid 2 ''carol'' 7000 Pending,
             lit_bid 3 ''dave'' 6000 Withdrawn, lit_bid 4 ''erin'' 5000 Rejected,
             (lit_bid 5 ''bob'' 9000 Pending)\<lparr>task_id := 2\<rparr>],
     activity = [lit_act 1 ''alice'' ''created'' ''Bounty: 10000 sats'',
                 lit_act 2 ''bob'' ''bid'' ''8000 sats: '',
                 lit_act 3 ''carol'' ''bid'' ''7000 sats: '']\<rparr>"
  by (simp add: st_mixed_def st_bids_eq)

lemma st_verified_twice_eq:
  "st_verified_twice
     = \<lparr>agents = [lit_alice 2 10000, lit_bidder ''bob'' 0 0, lit_bidder ''carol'' 2 14000],
        tasks = [lit_task 7000 Verified (Some ''carol'') (Some ''https://x'') None],
        bids = [lit_bid 1 ''bob'' 8000 Rejected, lit_bid 2 ''carol'' 7000 Accepted],
        activity = [lit_act 1 ''alice'' ''created'' ''Bounty: 10000 sats'',
                    lit_act 2 ''bob'' ''bid'' ''8000 sats: '',
                    lit_act 3 ''carol'' ''bid'' ''7000 sats: '',
                    lit_act 4 ''alice'' ''accepted_bid'' ''Assigned to carol for 7000 sats'',
                    lit_act 5 ''carol'' ''submitted'' ''https://x'',
                    lit_act 6 ''alice'' ''verified'' ''Approved. Awaiting payment.'',
                    lit_act 7 ''alice'' ''verified'' ''Approved. Awaiting payment.'']\<rparr>"
  by (simp add: st_verified_twice_def verify_in_flight_def st_verified_eq run_eval lit_defs)

lemma start_verify_in_flight:
  "start 1000 st_submitted rq_verify = (st_submitted, Inr verify_in_flight)"
  by (simp add: st_submitted_eq rq_verify_def verify_in_flight_def run_eval lit_defs)

lemma resume_verify_first:
  "resume 1000 st_submitted verify_in_flight = (st_verified, Inl (json (VerifyResult Verified) 200))"
  by (simp add: st_submitted_eq st_verified_eq verify_in_flight_def run_eval lit_defs)

lemma resume_verify_second:
  "resume 1000 st_verified verify_in_flight
     = (st_verified_twice, Inl (json (VerifyResult Verified) 200))"
proof -
  have "snd (resume 1000 st_verified verify_in_flight) = Inl (json (VerifyResult Verified) 200)"
    by (simp add: verify_in_flight_def run_eval)
  then show ?thesis
    by (simp add: st_verified_twice_def prod_eq_iff)
qed

lemma reachable_st_verified_twice: "reachable st_verified_twice"
proof -
  from reachable_st_submitted obtain cs where "running st_submitted cs"
    by (auto simp: reachable_def)
  from running_start [OF this start_verify_in_flight]
  have "running st_submitted (verify_in_flight # cs)"
    by (simp add: spawned_def)
  from running_start [OF this start_verify_in_flight]
  have both: "running st_submitted (verify_in_flight # verify_in_flight # cs)"
    by (simp add: spawned_def)
  have "verify_in_flight \<in> set (verify_in_flight # verify_in_flight # cs)"
    by simp
  from running_resume [OF both this resume_verify_first]
  have one: "running st_verified (verify_in_flight # cs)"
    by (simp add: spawned_def)
  have "verify_in_flight \<in> set (verify_in_flight # cs)"
    by simp
  from running_resume [OF one this resume_verify_second]
  have "running st_verified_twice cs"
    by (simp add: spawned_def)
  then show ?thesis
    by (auto simp: reachable_def)
qed

section \<open>The properties C1 to C10\<close>

text \<open>
  C1. In an accept call whose bid exists and belongs to the task, the tasks table is
  written by the conditional update alone: a row changes only if its id is the task's, its
  status is open and its poster is the caller, and it then gets status assigned, the
  bid's bidder as worker and the bid's amount as bounty. The update changes no row exactly
  when no row passes that guard; the call then answers 409 and the batch (accepted bid,
  rejected siblings, activity record) does not run: the database is as before. When a row
  changed, the call answers 200 with the worker and the batch runs on the updated tables,
  without touching the tasks or the agents; with unique task ids the task read back is
  assigned to the bidder for the bid's amount.
\<close>

theorem accept_bid_conditional_update:
  assumes req: "truthy (b_poster b)" "truthy_id (b_bid_id b)"
    and auth: "validateAuth now b ''accept_bid'' ''poster'' = None"
    and bid: "select_bid d (ident (b_bid_id b)) i = Some bd"
    and upd: "accept_update now d i bd (or_empty (b_poster b)) = (d1, changes)"
    and res: "accept_bid now d i b = (d', r)"
  shows "(changes = 0 \<longleftrightarrow>
            \<not> (\<exists>t\<in>set (tasks d). tid t = i \<and> status t = Open \<and> poster t = or_empty (b_poster b))) \<and>
         (changes = 0 \<longrightarrow>
            d' = d \<and> r = json (Error ''Task already accepted or not open, or not your task'') 409) \<and>
         (changes \<noteq> 0 \<longrightarrow>
            r = json (AcceptedWorker (bidder bd)) 200 \<and>
            d' = accept_cascade now d1 i (ident (b_bid_id b)) (or_empty (b_poster b)) bd) \<and>
         tasks d' = tasks d1 \<and> agents d' = agents d \<and>
         list_all2 (\<lambda>t t'. if tid t = i \<and> status t = Open \<and> poster t = or_empty (b_poster b)
                            then t' = t\<lparr>status := Assigned, worker := Some (bidder bd),
                                       bounty_sats := amount_sats bd, updated_at := now\<rparr>
                            else t' = t) (tasks d) (tasks d') \<and>
         (distinct (map tid (tasks d)) \<longrightarrow> changes \<noteq> 0 \<longrightarrow>
            (\<exists>t'. select_task d' i = Some t' \<and> status t' = Assigned \<and>
                  worker t' = Some (bidder bd) \<and> bounty_sats t' = amount_sats bd))"
proof -
  let ?p = "or_empty (b_poster b)"
  let ?f = "\<lambda>t. t\<lparr>status := Assigned, worker := Some (bidder bd),
                    bounty_sats := amount_sats bd, updated_at := now\<rparr>"
  from upd have d1: "d1 = d\<lparr>tasks := sql_update (accept_guard i ?p) ?f (tasks d)\<rparr>"
    and ch: "changes = sql_changes (accept_guard i ?p) (tasks d)"
    by (simp_all add: accept_update_def)
  have zero: "changes = 0 \<longleftrightarrow> \<not> (\<exists>t\<in>set (tasks d). tid t = i \<and> status t = Open \<and> poster t = ?p)"
    by (simp add: ch sql_changes_zero accept_guard_def)
  have same: "changes = 0 \<Longrightarrow> d1 = d"
    by (simp add: d1 ch sql_changes_zero sql_update_none)
  from res req auth bid upd
  have out: "(d', r) = (if changes = 0
       then (d1, json (Error ''Task already accepted or not open, or not your task'') 409)
       else (accept_cascade now d1 i (ident (b_bid_id b)) ?p bd, json (AcceptedWorker (bidder bd)) 200))"
    by (simp add: accept_bid_def)
  have c2: "changes = 0 \<longrightarrow>
      d' = d \<and> r = json (Error ''Task already accepted or not open, or not your task'') 409"
  proof
    assume z: "changes = 0"
    with out have "d' = d1" and "r = json (Error ''Task already accepted or not open, or not your task'') 409"
      by simp_all
    with same [OF z] show "d' = d \<and> r = json (Error ''Task already accepted or not open, or not your task'') 409"
      by simp
  qed
  have c3: "changes \<noteq> 0 \<longrightarrow> r = json (AcceptedWorker (bidder bd)) 200 \<and>
      d' = accept_cascade now d1 i (ident (b_bid_id b)) ?p bd"
    using out by (auto split: if_splits)
  have tasks': "tasks d' = tasks d1"
    using out by (cases "changes = 0") (simp_all add: accept_cascade_def Let_def)
  have agents': "agents d' = agents d"
    using out by (cases "changes = 0") (simp_all add: accept_cascade_def Let_def d1)
  have td1: "tasks d1 = sql_update (accept_guard i ?p) ?f (tasks d)"
    by (simp add: d1)
  have rows: "list_all2 (\<lambda>t t'. if tid t = i \<and> status t = Open \<and> poster t = ?p
                            then t' = ?f t else t' = t) (tasks d) (tasks d')"
    unfolding tasks' td1 sql_update_def
    by (simp add: list_all2_map2 list_all2_same accept_guard_def)
  have read: "\<exists>t'. select_task d' i = Some t' \<and> status t' = Assigned \<and>
      worker t' = Some (bidder bd) \<and> bounty_sats t' = amount_sats bd"
    if dist: "distinct (map tid (tasks d))" and nz: "changes \<noteq> 0"
  proof -
    from nz zero obtain t where t: "t \<in> set (tasks d)" "tid t = i" "status t = Open" "poster t = ?p"
      by auto
    from select_task_distinct [OF dist t(1)] t(2) have sel: "select_task d i = Some t"
      by simp
    have "tasks d' = sql_update (accept_guard i ?p) ?f (tasks d)"
      by (simp add: tasks' td1)
    from select_task_update [OF this, of i] have "select_task d' i = Some (?f t)"
      using sel t by (simp add: accept_guard_def)
    then show ?thesis by simp
  qed
  have c7: "distinct (map tid (tasks d)) \<longrightarrow> changes \<noteq> 0 \<longrightarrow>
      (\<exists>t'. select_task d' i = Some t' \<and> status t' = Assigned \<and>
            worker t' = Some (bidder bd) \<and> bounty_sats t' = amount_sats bd)"
    using read by blast
  show ?thesis
    by (intro conjI) (rule zero c2 c3 tasks' agents' rows c7)+
qed

theorem accept_bid_conditional_update_witness:
  "select_bid st_bids 2 1 = Some (lit_bid 2 ''carol'' 7000 Pending) \<and>
   accept_update 1000 st_bids 1 (lit_bid 2 ''carol'' 7000 Pending) ''alice''
     = (st_bids\<lparr>tasks := [lit_task 7000 Assigned (Some ''carol'') None None]\<rparr>, 1) \<and>
   accept_bid 1000 st_bids 1 (signed\<lparr>b_poster := Some ''alice'', b_bid_id := Some 2\<rparr>)
     = (st_assigned, json (AcceptedWorker ''carol'') 200) \<and>
   tasks st_assigned = [lit_task 7000 Assigned (Some ''carol'') None None] \<and>
   agents st_assigned = agents st_bids \<and>
   select_bid st_assigned 2 1 = Some (lit_bid 2 ''carol'' 7000 Accepted) \<and>
   accept_update 1000 st_assigned 1 (lit_bid 2 ''carol'' 7000 Accepted) ''alice'' = (st_assigned, 0) \<and>
   accept_bid 1000 st_assigned 1 (signed\<lparr>b_poster := Some ''alice'', b_bid_id := Some 2\<rparr>)
     = (st_assigned, json (Error ''Task already accepted or not open, or not your task'') 409)"
proof -
  let ?b = "signed\<lparr>b_poster := Some ''alice'', b_bid_id := Some 2\<rparr>"
  have req: "truthy (b_poster ?b)" "truthy_id (b_bid_id ?b)"
    and auth: "validateAuth 1000 ?b ''accept_bid'' ''poster'' = None"
    by (simp_all add: run_eval)
  have p: "or_empty (b_poster ?b) = ''alice''" and k: "ident (b_bid_id ?b) = 2"
    by (simp_all add: run_eval)
  have bid1: "select_bid st_bids 2 1 = Some (lit_bid 2 ''carol'' 7000 Pending)"
    by (simp add: st_bids_eq select_bid_def lit_defs)
  have upd1: "accept_update 1000 st_bids 1 (lit_bid 2 ''carol'' 7000 Pending) ''alice''
     = (st_bids\<lparr>tasks := [lit_task 7000 Assigned (Some ''carol'') None None]\<rparr>, 1)"
    by (simp add: st_bids_eq run_eval lit_defs)
  have res1: "accept_bid 1000 st_bids 1 ?b = (st_assigned, json (AcceptedWorker ''carol'') 200)"
    using run_accept by (simp add: rq_accept_def)
  have bid2: "select_bid st_assigned 2 1 = Some (lit_bid 2 ''carol'' 7000 Accepted)"
    by (simp add: st_assigned_eq select_bid_def lit_defs)
  have upd2: "accept_update 1000 st_assigned 1 (lit_bid 2 ''carol'' 7000 Accepted) ''alice'' = (st_assigned, 0)"
    by (simp add: st_assigned_eq run_eval lit_defs)
  have bid1': "select_bid st_bids (ident (b_bid_id ?b)) 1 = Some (lit_bid 2 ''carol'' 7000 Pending)"
    using bid1 by (simp add: ident_def)
  have upd1': "accept_update 1000 st_bids 1 (lit_bid 2 ''carol'' 7000 Pending) (or_empty (b_poster ?b))
     = (st_bids\<lparr>tasks := [lit_task 7000 Assigned (Some ''carol'') None None]\<rparr>, 1)"
    using upd1 by (simp add: or_empty_def)
  have bid2': "select_bid st_assigned (ident (b_bid_id ?b)) 1 = Some (lit_bid 2 ''carol'' 7000 Accepted)"
    using bid2 by (simp add: ident_def)
  have upd2': "accept_update 1000 st_assigned 1 (lit_bid 2 ''carol'' 7000 Accepted) (or_empty (b_poster ?b))
     = (st_assigned, 0)"
    using upd2 by (simp add: or_empty_def)
  obtain d' r where res2: "accept_bid 1000 st_assigned 1 ?b = (d', r)"
    by (cases "accept_bid 1000 st_assigned 1 ?b")
  note first = accept_bid_conditional_update [OF req auth bid1' upd1' res1]
  note second = accept_bid_conditional_update [OF req auth bid2' upd2' res2]
  from first have one: "tasks st_assigned = [lit_task 7000 Assigned (Some ''carol'') None None]"
    "agents st_assigned = agents st_bids"
    by simp_all
  from second
  have "d' = st_assigned \<and> r = json (Error ''Task already accepted or not open, or not your task'') 409"
    by simp
  with res2 have two: "accept_bid 1000 st_assigned 1 ?b
     = (st_assigned, json (Error ''Task already accepted or not open, or not your task'') 409)"
    by simp
  from bid1 upd1 res1 one bid2 upd2 two show ?thesis
    by (intro conjI)
qed

text \<open>
  C2 (as amended). In every reachable state, with the statements of concurrent requests
  interleaved, a task whose status is open has no worker, and a task without a worker has
  the status open or cancelled. Every step of every request keeps this so: a step leaves
  a worker that is set as it is, returns no task to open, and sets a worker only in the
  update that moves an open task to assigned; a task row that a step adds has the status
  open and no worker. (Whether a cancelled task has a worker is not stated.)
\<close>

theorem open_task_has_no_worker:
  assumes "reachable d" and "select_task d i = Some t"
    and "start now d rq = (d', x) \<or> resume now d c = (d', x)"
  shows "(status t = Open \<longrightarrow> worker t = None) \<and>
         (worker t = None \<longrightarrow> status t = Open \<or> status t = Cancelled) \<and>
         (\<exists>t'. select_task d' i = Some t' \<and>
               (worker t \<noteq> None \<longrightarrow> worker t' = worker t) \<and>
               (status t \<noteq> Open \<longrightarrow> status t' \<noteq> Open) \<and>
               (worker t = None \<and> worker t' \<noteq> None \<longrightarrow> status t = Open \<and> status t' = Assigned)) \<and>
         (\<forall>j u. select_task d j = None \<and> select_task d' j = Some u \<longrightarrow>
                status u = Open \<and> worker u = None)"
proof (intro conjI allI impI)
  from select_task_SomeD [OF assms(2)] have mem: "t \<in> set (tasks d)"
    by simp
  show open_none: "worker t = None" if "status t = Open"
    using reachable_open_no_worker [OF assms(1)] mem that by simp
  show "status t = Open \<or> status t = Cancelled" if "worker t = None"
    using reachable_worker_status [OF assms(1)] mem that by simp
  from assms(3) show "\<exists>t'. select_task d' i = Some t' \<and>
               (worker t \<noteq> None \<longrightarrow> worker t' = worker t) \<and>
               (status t \<noteq> Open \<longrightarrow> status t' \<noteq> Open) \<and>
               (worker t = None \<and> worker t' \<noteq> None \<longrightarrow> status t = Open \<and> status t' = Assigned)"
  proof
    assume "start now d rq = (d', x)"
    from select_task_cong [OF start_tasks [OF this], of i] assms(2) show ?thesis
      by auto
  next
    assume "resume now d c = (d', x)"
    from resume_task_row [OF this assms(2)] open_none show ?thesis
      by auto
  qed
next
  fix j u
  assume new: "select_task d j = None \<and> select_task d' j = Some u"
  from assms(3) have "status u = Open \<and> worker u = None"
  proof
    assume "start now d rq = (d', x)"
    from select_task_cong [OF start_tasks [OF this], of j] new show ?thesis
      by simp
  next
    assume "resume now d c = (d', x)"
    from resume_task_new [OF this] new show ?thesis
      by blast
  qed
  then show "status u = Open" and "worker u = None"
    by simp_all
qed

theorem open_task_has_no_worker_witness:
  "reachable st_bids \<and> select_task st_bids 1 = Some (lit_task 10000 Open None None None) \<and>
   resume 1000 st_bids
     (AcceptUpdate 1 (signed\<lparr>b_poster := Some ''alice'', b_bid_id := Some 2\<rparr>)
        (lit_bid 2 ''carol'' 7000 Pending))
     = (st_bids\<lparr>tasks := [lit_task 7000 Assigned (Some ''carol'') None None]\<rparr>,
        Inr (AcceptBatch 1 (signed\<lparr>b_poster := Some ''alice'', b_bid_id := Some 2\<rparr>)
               (lit_bid 2 ''carol'' 7000 Pending))) \<and>
   status (lit_task 10000 Open None None None) = Open \<and>
   worker (lit_task 10000 Open None None None) = None \<and>
   select_task (st_bids\<lparr>tasks := [lit_task 7000 Assigned (Some ''carol'') None None]\<rparr>) 1
     = Some (lit_task 7000 Assigned (Some ''carol'') None None) \<and>
   worker (lit_task 7000 Assigned (Some ''carol'') None None) \<noteq> None \<and>
   status (lit_task 7000 Assigned (Some ''carol'') None None) = Assigned"
proof -
  let ?b = "signed\<lparr>b_poster := Some ''alice'', b_bid_id := Some 2\<rparr>"
  let ?t = "lit_task 10000 Open None None None"
  let ?u = "lit_task 7000 Assigned (Some ''carol'') None None"
  let ?d = "st_bids\<lparr>tasks := [?u]\<rparr>"
  have sel: "select_task st_bids 1 = Some ?t"
    by (simp add: st_bids_eq select_task_def lit_defs)
  have step: "resume 1000 st_bids (AcceptUpdate 1 ?b (lit_bid 2 ''carol'' 7000 Pending))
      = (?d, Inr (AcceptBatch 1 ?b (lit_bid 2 ''carol'' 7000 Pending)))"
    by (simp add: st_bids_eq run_eval lit_defs)
  then have hyp: "start 1000 st_bids rq_accept
        = (?d, Inr (AcceptBatch 1 ?b (lit_bid 2 ''carol'' 7000 Pending))) \<or>
      resume 1000 st_bids (AcceptUpdate 1 ?b (lit_bid 2 ''carol'' 7000 Pending))
        = (?d, Inr (AcceptBatch 1 ?b (lit_bid 2 ''carol'' 7000 Pending)))"
    by (rule disjI2)
  have st: "status ?t = Open"
    by (simp add: lit_defs)
  have after: "select_task ?d 1 = Some ?u"
    by (simp add: select_task_def lit_defs)
  have w: "worker ?u \<noteq> None"
    by (simp add: lit_defs)
  note facts = open_task_has_no_worker [OF reachable_st_bids sel hyp]
  from facts st have none: "worker ?t = None"
    by blast
  from facts after none w have "status ?u = Assigned"
    by auto
  with reachable_st_bids sel step st none after w show ?thesis
    by (intro conjI)
qed

theorem worker_null_not_open_counterexample:
  "reachable st_cancelled \<and> map worker (tasks st_cancelled) = [None] \<and>
   map status (tasks st_cancelled) = [Cancelled]"
  using reachable_st_cancelled by (simp add: st_cancelled_eq lit_defs)

text \<open>
  C3. In every reachable state, with the statements of concurrent requests interleaved,
  at most one bid of a task has the status accepted; and an accepted bid stays as it is
  whatever step of whatever request follows, so a task never has a second accepted bid.
  In every state of the tables, reachable or not, the batch of a successful accept of
  bid B sets B's status to accepted, sets every other bid on the same task whose status
  is pending to rejected, and leaves every other bid (withdrawn, rejected, accepted, or
  on another task) as it was; so does an accept call that runs alone and answers 200.
\<close>

theorem one_accepted_bid_per_task:
  "(reachable d \<longrightarrow> length (filter (\<lambda>x. task_id x = i \<and> bid_status x = Accepted) (bids d)) \<le> 1) \<and>
   (x \<in> set (bids d) \<and> bid_status x = Accepted \<longrightarrow>
      x \<in> set (bids (fst (start now d rq))) \<and> x \<in> set (bids (fst (resume now d c)))) \<and>
   bids (fst (resume now d (AcceptBatch i b bd)))
     = map (\<lambda>x. if bid_id x = ident (b_bid_id b) then x\<lparr>bid_status := Accepted\<rparr>
                else if task_id x = i \<and> bid_status x = Pending then x\<lparr>bid_status := Rejected\<rparr>
                else x) (bids d) \<and>
   (accept_bid now d i b = (d', r) \<and> fst r = 200 \<longrightarrow>
      bids d' = map (\<lambda>x. if bid_id x = ident (b_bid_id b) then x\<lparr>bid_status := Accepted\<rparr>
                         else if task_id x = i \<and> bid_status x = Pending
                              then x\<lparr>bid_status := Rejected\<rparr>
                         else x) (bids d) \<and>
      (\<exists>bd. select_bid d (ident (b_bid_id b)) i = Some bd \<and>
            select_bid d' (ident (b_bid_id b)) i = Some (bd\<lparr>bid_status := Accepted\<rparr>)))"
proof (intro conjI impI)
  show "length (filter (\<lambda>x. task_id x = i \<and> bid_status x = Accepted) (bids d)) \<le> 1"
    if "reachable d"
    using that by (rule reachable_one_accepted)
next
  assume x: "x \<in> set (bids d) \<and> bid_status x = Accepted"
  obtain d1 y where s: "start now d rq = (d1, y)"
    by (cases "start now d rq")
  from start_quiet [OF s] x s show "x \<in> set (bids (fst (start now d rq)))"
    by simp
  from x show "x \<in> set (bids (fst (resume now d c)))"
    by (intro resume_keeps_accepted) simp_all
next
  show "bids (fst (resume now d (AcceptBatch i b bd)))
     = map (\<lambda>x. if bid_id x = ident (b_bid_id b) then x\<lparr>bid_status := Accepted\<rparr>
                else if task_id x = i \<and> bid_status x = Pending then x\<lparr>bid_status := Rejected\<rparr>
                else x) (bids d)"
    by (rule resume_accept_batch_bids)
next
  assume a: "accept_bid now d i b = (d', r) \<and> fst r = 200"
  let ?k = "ident (b_bid_id b)"
  let ?g = "\<lambda>x. if bid_id x = ?k then x\<lparr>bid_status := Accepted\<rparr>
            else if task_id x = i \<and> bid_status x = Pending then x\<lparr>bid_status := Rejected\<rparr> else x"
  from a obtain bd where bd: "select_bid d ?k i = Some bd"
    and bids': "bids d' = sql_update (\<lambda>r. task_id r = i \<and> bid_id r \<noteq> ?k \<and> bid_status r = Pending)
         (\<lambda>r. r\<lparr>bid_status := Rejected\<rparr>)
         (sql_update (\<lambda>r. bid_id r = ?k) (\<lambda>r. r\<lparr>bid_status := Accepted\<rparr>) (bids d))"
    by (auto simp: accept_bid_def accept_update_def accept_cascade_def Let_def json_def
          split: if_splits option.splits)
  show m: "bids d' = map ?g (bids d)"
    by (simp add: bids' cascade_bids)
  have "select_bid d' ?k i = map_option ?g (select_bid d ?k i)"
    unfolding select_bid_def m by (rule find_map_key) simp
  with bd select_bid_SomeD [OF bd]
  have "select_bid d' ?k i = Some (bd\<lparr>bid_status := Accepted\<rparr>)"
    by simp
  with bd show "\<exists>bd. select_bid d ?k i = Some bd \<and> select_bid d' ?k i = Some (bd\<lparr>bid_status := Accepted\<rparr>)"
    by simp
qed

theorem one_accepted_bid_per_task_witness:
  "reachable st_assigned \<and>
   bids st_assigned = [lit_bid 1 ''bob'' 8000 Rejected, lit_bid 2 ''carol'' 7000 Accepted] \<and>
   length (filter (\<lambda>x. task_id x = 1 \<and> bid_status x = Accepted) (bids st_assigned)) \<le> 1 \<and>
   lit_bid 2 ''carol'' 7000 Accepted \<in> set (bids (fst (start 1000 st_assigned rq_submit))) \<and>
   lit_bid 2 ''carol'' 7000 Accepted
     \<in> set (bids (fst (resume 1000 st_assigned
          (AcceptBatch 1 (signed\<lparr>b_poster := Some ''alice'', b_bid_id := Some 1\<rparr>)
             (lit_bid 1 ''bob'' 8000 Rejected))))) \<and>
   bids st_mixed = [lit_bid 1 ''bob'' 8000 Pending, lit_bid 2 ''carol'' 7000 Pending,
                    lit_bid 3 ''dave'' 6000 Withdrawn, lit_bid 4 ''erin'' 5000 Rejected,
                    (lit_bid 5 ''bob'' 9000 Pending)\<lparr>task_id := 2\<rparr>] \<and>
   snd (accept_bid 1000 st_mixed 1 (signed\<lparr>b_poster := Some ''alice'', b_bid_id := Some 2\<rparr>))
     = json (AcceptedWorker ''carol'') 200 \<and>
   bids (fst (accept_bid 1000 st_mixed 1 (signed\<lparr>b_poster := Some ''alice'', b_bid_id := Some 2\<rparr>)))
     = [lit_bid 1 ''bob'' 8000 Rejected, lit_bid 2 ''carol'' 7000 Accepted,
        lit_bid 3 ''dave'' 6000 Withdrawn, lit_bid 4 ''erin'' 5000 Rejected,
        (lit_bid 5 ''bob'' 9000 Pending)\<lparr>task_id := 2\<rparr>] \<and>
   bids (fst (resume 1000 st_mixed
          (AcceptBatch 1 (signed\<lparr>b_poster := Some ''alice'', b_bid_id := Some 2\<rparr>)
             (lit_bid 2 ''carol'' 7000 Pending))))
     = [lit_bid 1 ''bob'' 8000 Rejected, lit_bid 2 ''carol'' 7000 Accepted,
        lit_bid 3 ''dave'' 6000 Withdrawn, lit_bid 4 ''erin'' 5000 Rejected,
        (lit_bid 5 ''bob'' 9000 Pending)\<lparr>task_id := 2\<rparr>]"
proof -
  let ?b = "signed\<lparr>b_poster := Some ''alice'', b_bid_id := Some 2\<rparr>"
  let ?b1 = "signed\<lparr>b_poster := Some ''alice'', b_bid_id := Some 1\<rparr>"
  let ?x = "lit_bid 2 ''carol'' 7000 Accepted"
  let ?c = "AcceptBatch 1 ?b1 (lit_bid 1 ''bob'' 8000 Rejected)"
  let ?after = "[lit_bid 1 ''bob'' 8000 Rejected, lit_bid 2 ''carol'' 7000 Accepted,
        lit_bid 3 ''dave'' 6000 Withdrawn, lit_bid 4 ''erin'' 5000 Rejected,
        (lit_bid 5 ''bob'' 9000 Pending)\<lparr>task_id := 2\<rparr>]"
  have assigned: "bids st_assigned = [lit_bid 1 ''bob'' 8000 Rejected, ?x]"
    by (simp add: st_assigned_eq)
  have mem: "?x \<in> set (bids st_assigned) \<and> bid_status ?x = Accepted"
    by (simp add: assigned lit_defs)
  note first = one_accepted_bid_per_task [where d = st_assigned and i = 1 and x = ?x and now = 1000
      and rq = rq_submit and c = ?c]
  from first reachable_st_assigned
  have count: "length (filter (\<lambda>x. task_id x = 1 \<and> bid_status x = Accepted) (bids st_assigned)) \<le> 1"
    by blast
  from first [THEN conjunct2, THEN conjunct1, THEN mp, OF mem]
  have stay1: "?x \<in> set (bids (fst (start 1000 st_assigned rq_submit)))"
    and stay2: "?x \<in> set (bids (fst (resume 1000 st_assigned ?c)))"
    by simp_all
  have mixed: "bids st_mixed = [lit_bid 1 ''bob'' 8000 Pending, lit_bid 2 ''carol'' 7000 Pending,
                    lit_bid 3 ''dave'' 6000 Withdrawn, lit_bid 4 ''erin'' 5000 Rejected,
                    (lit_bid 5 ''bob'' 9000 Pending)\<lparr>task_id := 2\<rparr>]"
    by (simp add: st_mixed_eq)
  have res: "snd (accept_bid 1000 st_mixed 1 ?b) = json (AcceptedWorker ''carol'') 200"
    by (simp add: st_mixed_eq run_eval lit_defs)
  then have hyp: "accept_bid 1000 st_mixed 1 ?b
        = (fst (accept_bid 1000 st_mixed 1 ?b), json (AcceptedWorker ''carol'') 200) \<and>
      fst (json (AcceptedWorker ''carol'') 200) = 200"
    by (simp add: prod_eq_iff json_def)
  note second = one_accepted_bid_per_task [where d = st_mixed and i = 1 and now = 1000 and b = ?b
      and d' = "fst (accept_bid 1000 st_mixed 1 ?b)" and r = "json (AcceptedWorker ''carol'') 200"
      and bd = "lit_bid 2 ''carol'' 7000 Pending"]
  from second [THEN conjunct2, THEN conjunct2, THEN conjunct2, THEN mp, OF hyp, THEN conjunct1]
  have alone: "bids (fst (accept_bid 1000 st_mixed 1 ?b)) = ?after"
    by (simp add: mixed ident_def lit_defs)
  from second [THEN conjunct2, THEN conjunct2, THEN conjunct1]
  have batch: "bids (fst (resume 1000 st_mixed (AcceptBatch 1 ?b (lit_bid 2 ''carol'' 7000 Pending))))
      = ?after"
    by (simp add: mixed ident_def lit_defs)
  from reachable_st_assigned assigned count stay1 stay2 mixed res alone batch show ?thesis
    by (intro conjI)
qed

text \<open>
  C4. In a reachable state, a verify call with a valid envelope by the task's poster, on
  a task whose status is submitted, with approved = true, answers 200; the task's status
  becomes paid when payment_tx is a non-empty string and verified otherwise; the worker's
  ledger row gains 1 in tasks_completed, the task's bounty in total_earned_sats and 1 in
  reputation; the poster's row gains 1 in reputation; no other agent's row changes; and
  one activity record with the action verified is appended.
\<close>

theorem verify_approve_effects:
  assumes reach: "reachable d" and sel: "select_task d i = Some t" and st: "status t = Submitted"
    and who: "poster t = or_empty (b_poster b)"
    and auth: "validateAuth now b ''verify'' ''poster'' = None"
    and ok: "b_approved b = Some True" and res: "verify_work now d i b = (d', r)"
  shows "r = json (VerifyResult Verified) 200 \<and>
         select_task d' i = Some (t\<lparr>status := (if truthy (b_payment_tx b) then Paid else Verified),
                                     payment_tx := or_null (b_payment_tx b), updated_at := now\<rparr>) \<and>
         (\<exists>w aw ap. worker t = Some w \<and> select_agent d w = Some aw \<and>
            select_agent d (poster t) = Some ap \<and>
            select_agent d' w = Some (aw\<lparr>tasks_completed := tasks_completed aw + 1,
                                          total_earned_sats := total_earned_sats aw + bounty_sats t,
                                          reputation := reputation aw + 1\<rparr>) \<and>
            select_agent d' (poster t) = Some (ap\<lparr>reputation := reputation ap + 1\<rparr>) \<and>
            (\<forall>a. a \<noteq> w \<and> a \<noteq> poster t \<longrightarrow> select_agent d' a = select_agent d a)) \<and>
         activity d' = activity d @
           [\<lparr>act_id = last_row_id (map act_id (activity d)), act_task_id = i, actor = poster t,
             action = ''verified'',
             details = Some (''Approved. '' @
               (if truthy (b_payment_tx b) then ''Paid: '' @ or_empty (b_payment_tx b)
                else ''Awaiting payment.'')),
             act_created_at = now\<rparr>] \<and>
         bids d' = bids d"
proof -
  let ?ns = "if truthy (b_payment_tx b) then Paid else Verified"
  let ?ft = "\<lambda>r. r\<lparr>status := ?ns, payment_tx := or_null (b_payment_tx b), updated_at := now\<rparr>"
  let ?fw = "\<lambda>a. a\<lparr>tasks_completed := tasks_completed a + 1,
                    total_earned_sats := total_earned_sats a + bounty_sats t,
                    reputation := reputation a + 1\<rparr>"
  let ?fp = "\<lambda>a. a\<lparr>reputation := reputation a + 1\<rparr>"
  from auth have p: "truthy (b_poster b)"
    using validateAuth_address [of now b "''verify''" "''poster''"] by (simp add: address_field_def)
  from select_task_SomeD [OF sel] have tid: "tid t = i" and mem: "t \<in> set (tasks d)"
    by simp_all
  from res sel st who auth ok p
  have r: "r = json (VerifyResult Verified) 200"
    and tasks': "tasks d' = sql_update (\<lambda>r. tid r = i) ?ft (tasks d)"
    and agents': "agents d' = sql_update (\<lambda>a. btc_address a = poster t) ?fp
                    (sql_update (\<lambda>a. Some (btc_address a) = worker t) ?fw (agents d))"
    and bids': "bids d' = bids d"
    and act': "activity d' = activity d @
           [\<lparr>act_id = last_row_id (map act_id (activity d)), act_task_id = i, actor = poster t,
             action = ''verified'',
             details = Some (''Approved. '' @
               (if truthy (b_payment_tx b) then ''Paid: '' @ or_empty (b_payment_tx b)
                else ''Awaiting payment.'')),
             act_created_at = now\<rparr>]"
    by (auto simp: verify_work_def Let_def insert_activity_def)
  have task: "select_task d' i = Some (?ft t)"
    using select_task_update [OF tasks', of i] sel tid by simp
  from reachable_worker_status [OF reach] mem st obtain w where w: "worker t = Some w"
    by (cases "worker t") auto
  from reachable_worker_not_poster [OF reach] mem w have wp: "w \<noteq> poster t"
    by auto
  from reachable_worker_agent [OF reach] mem w obtain aw where aw: "select_agent d w = Some aw"
    using select_agent_exists by blast
  from reachable_poster_agent [OF reach] mem obtain ap where ap: "select_agent d (poster t) = Some ap"
    using select_agent_exists by blast
  have look: "select_agent d' a =
      map_option (\<lambda>x. if btc_address x = poster t then ?fp x else x)
        (map_option (\<lambda>x. if Some (btc_address x) = worker t then ?fw x else x) (select_agent d a))" for a
    unfolding select_agent_def agents'
    by (simp add: find_sql_update)
  from select_agent_SomeD [OF aw] select_agent_SomeD [OF ap]
  have "btc_address aw = w" and "btc_address ap = poster t" by simp_all
  with wp w have gw: "select_agent d' w = Some (?fw aw)" and gp: "select_agent d' (poster t) = Some (?fp ap)"
    by (simp_all add: look aw ap)
  have others: "\<forall>a. a \<noteq> w \<and> a \<noteq> poster t \<longrightarrow> select_agent d' a = select_agent d a"
  proof (intro allI impI)
    fix a assume a: "a \<noteq> w \<and> a \<noteq> poster t"
    show "select_agent d' a = select_agent d a"
    proof (cases "select_agent d a")
      case None
      then show ?thesis by (simp add: look)
    next
      case (Some x)
      with select_agent_SomeD [OF Some] a w show ?thesis by (simp add: look)
    qed
  qed
  from w aw ap gw gp others
  have agents: "\<exists>w aw ap. worker t = Some w \<and> select_agent d w = Some aw \<and>
            select_agent d (poster t) = Some ap \<and>
            select_agent d' w = Some (?fw aw) \<and>
            select_agent d' (poster t) = Some (?fp ap) \<and>
            (\<forall>a. a \<noteq> w \<and> a \<noteq> poster t \<longrightarrow> select_agent d' a = select_agent d a)"
    by blast
  show ?thesis
    by (intro conjI) (rule r task agents act' bids')+
qed

theorem verify_approve_effects_witness:
  "reachable st_submitted \<and>
   select_task st_submitted 1 = Some (lit_task 7000 Submitted (Some ''carol'') (Some ''https://x'') None) \<and>
   verify_work 1000 st_submitted 1 (signed\<lparr>b_poster := Some ''alice'', b_approved := Some True\<rparr>)
     = (st_verified, json (VerifyResult Verified) 200) \<and>
   map_option status (select_task st_verified 1) = Some Verified \<and>
   select_agent st_submitted ''carol'' = Some (lit_bidder ''carol'' 0 0) \<and>
   select_agent st_verified ''carol'' = Some (lit_bidder ''carol'' 1 7000) \<and>
   select_agent st_submitted ''alice'' = Some (lit_alice 0 10000) \<and>
   select_agent st_verified ''alice'' = Some (lit_alice 1 10000) \<and>
   select_agent st_verified ''bob'' = select_agent st_submitted ''bob'' \<and>
   map action (activity st_verified) = map action (activity st_submitted) @ [''verified'']"
proof -
  let ?b = "signed\<lparr>b_poster := Some ''alice'', b_approved := Some True\<rparr>"
  let ?t = "lit_task 7000 Submitted (Some ''carol'') (Some ''https://x'') None"
  have sel: "select_task st_submitted 1 = Some ?t"
    by (simp add: st_submitted_eq select_task_def lit_defs)
  have st: "status ?t = Submitted" and who: "poster ?t = or_empty (b_poster ?b)"
    and auth: "validateAuth 1000 ?b ''verify'' ''poster'' = None" and ok: "b_approved ?b = Some True"
    by (simp_all add: run_eval lit_defs)
  have res: "verify_work 1000 st_submitted 1 ?b = (st_verified, json (VerifyResult Verified) 200)"
    using run_verify by (simp add: rq_verify_def)
  have a1: "select_agent st_submitted ''carol'' = Some (lit_bidder ''carol'' 0 0)"
    and a2: "select_agent st_submitted ''alice'' = Some (lit_alice 0 10000)"
    by (simp_all add: st_submitted_eq select_agent_def lit_defs)
  have w: "worker ?t = Some ''carol''" and pt: "poster ?t = ''alice''" and bt: "bounty_sats ?t = 7000"
    and pay: "\<not> truthy (b_payment_tx ?b)"
    by (simp_all add: lit_defs run_eval)
  note facts = verify_approve_effects [OF reachable_st_submitted sel st who auth ok res]
  from facts pay have c1: "map_option status (select_task st_verified 1) = Some Verified"
    by simp
  from facts w a1 a2 pt bt
  have c2: "select_agent st_verified ''carol'' = Some (lit_bidder ''carol'' 1 7000)"
    and c3: "select_agent st_verified ''alice'' = Some (lit_alice 1 10000)"
    and c4: "select_agent st_verified ''bob'' = select_agent st_submitted ''bob''"
    by (auto simp: lit_defs)
  from facts have c5: "map action (activity st_verified) = map action (activity st_submitted) @ [''verified'']"
    by simp
  from reachable_st_submitted sel res c1 a1 c2 a2 c3 c4 c5 show ?thesis
    by (intro conjI)
qed

text \<open>
  C5. The ledger figure and the tasks come apart in a reachable state. The batch of
  verify rewrites the task row by its id alone and adds the bounty to the worker's
  total_earned_sats, whatever the task's status is by then; the status was tested on the
  row the request read before. Two verify requests on the same submitted task that both
  read the row before either batch runs (\<open>verify_in_flight\<close>) both answer 200: the
  worker is credited 14000, while the one task the worker has completed carries a bounty of
  7000.
  The accept route tests the status in its UPDATE and runs its batch only when a row
  changed; the verify route has no such test.
\<close>

theorem double_verify_credits_twice:
  "reachable st_submitted \<and>
   select_agent st_submitted ''carol'' = Some (lit_bidder ''carol'' 0 0) \<and>
   earned_by_tasks (tasks st_submitted) ''carol'' = 0 \<and>
   start 1000 st_submitted rq_verify = (st_submitted, Inr verify_in_flight) \<and>
   resume 1000 st_submitted verify_in_flight
     = (st_verified, Inl (json (VerifyResult Verified) 200)) \<and>
   resume 1000 st_verified verify_in_flight
     = (st_verified_twice, Inl (json (VerifyResult Verified) 200)) \<and>
   reachable st_verified_twice \<and>
   tasks st_verified_twice = [lit_task 7000 Verified (Some ''carol'') (Some ''https://x'') None] \<and>
   select_agent st_verified_twice ''carol'' = Some (lit_bidder ''carol'' 2 14000) \<and>
   total_earned_sats (lit_bidder ''carol'' 2 14000) = 14000 \<and>
   earned_by_tasks (tasks st_verified_twice) ''carol'' = 7000"
proof -
  have a: "select_agent st_submitted ''carol'' = Some (lit_bidder ''carol'' 0 0)"
    by (simp add: st_submitted_eq select_agent_def lit_defs)
  have b: "earned_by_tasks (tasks st_submitted) ''carol'' = 0"
    by (simp add: st_submitted_eq earned_by_tasks_def lit_defs)
  have c: "tasks st_verified_twice = [lit_task 7000 Verified (Some ''carol'') (Some ''https://x'') None]"
    by (simp add: st_verified_twice_eq)
  have d: "select_agent st_verified_twice ''carol'' = Some (lit_bidder ''carol'' 2 14000)"
    by (simp add: st_verified_twice_eq select_agent_def lit_defs)
  have e: "total_earned_sats (lit_bidder ''carol'' 2 14000) = 14000"
    by (simp add: lit_defs)
  have f: "earned_by_tasks (tasks st_verified_twice) ''carol'' = 7000"
    by (simp add: c earned_by_tasks_def lit_defs)
  from reachable_st_submitted a b start_verify_in_flight resume_verify_first resume_verify_second
    reachable_st_verified_twice c d e f
  show ?thesis
    by (intro conjI)
qed

text \<open>
  C6. No request decreases an agent's reputation: whatever the request and the state, an
  agent that has a ledger row before the request has one after it, with a reputation at
  least as large.
\<close>

theorem reputation_never_decreases:
  assumes "fetch now d rq = (d', r)" and "select_agent d a = Some x"
  shows "\<exists>y. select_agent d' a = Some y \<and> reputation x \<le> reputation y"
  using assms(1)
proof (cases rule: fetch_elim)
  case unchanged
  with assms(2) show ?thesis by simp
next
  case (created nt dn sx n)
  from select_agent_ensureAgent [OF assms(2), of now "poster nt" dn sx]
  obtain y where "select_agent (ensureAgent now d (poster nt) dn sx) a = Some y"
    and "reputation y = reputation x" by blast
  then show ?thesis
    by (simp add: select_agent_def created(6) find_sql_update)
next
  case (bid i t nb dn sx)
  from select_agent_ensureAgent [OF assms(2), of now "bidder nb" dn sx]
  show ?thesis
    by (auto simp: select_agent_cong [OF bid(9)])
next
  case (accepted i b bd p)
  with assms(2) show ?thesis
    by (simp add: select_agent_cong [OF accepted(5)])
next
  case (submitted i t pu pd)
  with assms(2) show ?thesis
    by (simp add: select_agent_cong [OF submitted(6)])
next
  case (verified i t ns ptx)
  from assms(2) show ?thesis
    by (simp add: select_agent_def verified(6) find_sql_update)
next
  case (disputed i t)
  with assms(2) show ?thesis
    by (simp add: select_agent_cong [OF disputed(5)])
next
  case (cancelled i t)
  from assms(2) show ?thesis
    by (simp add: select_agent_def cancelled(5) find_sql_update)
qed

theorem reputation_never_decreases_witness:
  "fetch 1000 st_submitted rq_verify = (st_verified, json (VerifyResult Verified) 200) \<and>
   select_agent st_submitted ''carol'' = Some (lit_bidder ''carol'' 0 0) \<and>
   select_agent st_verified ''carol'' = Some (lit_bidder ''carol'' 1 7000) \<and>
   reputation (lit_bidder ''carol'' 0 0) \<le> reputation (lit_bidder ''carol'' 1 7000)"
proof -
  have a: "select_agent st_submitted ''carol'' = Some (lit_bidder ''carol'' 0 0)"
    by (simp add: st_submitted_eq select_agent_def lit_defs)
  have b: "select_agent st_verified ''carol'' = Some (lit_bidder ''carol'' 1 7000)"
    by (simp add: st_verified_eq select_agent_def lit_defs)
  from reputation_never_decreases [OF run_verify a] b
  have "reputation (lit_bidder ''carol'' 0 0) \<le> reputation (lit_bidder ''carol'' 1 7000)"
    by auto
  with run_verify a b show ?thesis by (intro conjI)
qed




text \<open>
  C8 (as amended). On an existing task, a request with a valid envelope and the
  mandatory parameters of its operation (proof_url for submit, approved for verify,
  bid_id for accept; a request without them fails with 400 before any other check)
  whose acting address is not the one the transition requires changes nothing. Submit by
  an address other than the task's worker, and verify or cancel by an address other than
  the task's poster, fail with 403. Accept has no separate authorization check: for a
  caller who is not the poster the conditional update matches no row, and the call fails
  with 409 (conflict), or with 404 when the bid is not a bid on that task.
\<close>

theorem actor_mismatch_changes_nothing:
  assumes "select_task d i = Some t"
  shows "(truthy (b_proof_url b) \<and> validateAuth now b ''submit'' ''worker'' = None \<and>
            worker t \<noteq> b_worker b \<longrightarrow>
          submit_work now d i b = (d, json (Error ''Only the assigned worker can submit'') 403)) \<and>
         (b_approved b \<noteq> None \<and> validateAuth now b ''verify'' ''poster'' = None \<and>
            poster t \<noteq> or_empty (b_poster b) \<longrightarrow>
          verify_work now d i b = (d, json (Error ''Only the poster can verify'') 403)) \<and>
         (validateAuth now b ''cancel'' ''poster'' = None \<and> poster t \<noteq> or_empty (b_poster b) \<longrightarrow>
          cancel_task now d i b = (d, json (Error ''Only the poster can cancel'') 403)) \<and>
         (truthy_id (b_bid_id b) \<and> validateAuth now b ''accept_bid'' ''poster'' = None \<and>
            poster t \<noteq> or_empty (b_poster b) \<and> distinct (map tid (tasks d)) \<longrightarrow>
          accept_bid now d i b =
            (d, if select_bid d (ident (b_bid_id b)) i = None
                then json (Error ''Bid not found'') 404
                else json (Error ''Task already accepted or not open, or not your task'') 409))"
proof (intro conjI impI)
  assume a: "truthy (b_proof_url b) \<and> validateAuth now b ''submit'' ''worker'' = None \<and>
            worker t \<noteq> b_worker b"
  then have "truthy (b_worker b)"
    using validateAuth_address [of now b "''submit''" "''worker''"] by (simp add: address_field_def)
  with a assms show "submit_work now d i b = (d, json (Error ''Only the assigned worker can submit'') 403)"
    by (simp add: submit_work_def)
next
  assume a: "b_approved b \<noteq> None \<and> validateAuth now b ''verify'' ''poster'' = None \<and>
            poster t \<noteq> or_empty (b_poster b)"
  then have "truthy (b_poster b)"
    using validateAuth_address [of now b "''verify''" "''poster''"] by (simp add: address_field_def)
  with a assms show "verify_work now d i b = (d, json (Error ''Only the poster can verify'') 403)"
    by (auto simp: verify_work_def)
next
  assume a: "validateAuth now b ''cancel'' ''poster'' = None \<and> poster t \<noteq> or_empty (b_poster b)"
  then have "truthy (b_poster b)"
    using validateAuth_address [of now b "''cancel''" "''poster''"] by (simp add: address_field_def)
  with a assms show "cancel_task now d i b = (d, json (Error ''Only the poster can cancel'') 403)"
    by (simp add: cancel_task_def)
next
  assume a: "truthy_id (b_bid_id b) \<and> validateAuth now b ''accept_bid'' ''poster'' = None \<and>
            poster t \<noteq> or_empty (b_poster b) \<and> distinct (map tid (tasks d))"
  then have p: "truthy (b_poster b)"
    using validateAuth_address [of now b "''accept_bid''" "''poster''"] by (simp add: address_field_def)
  have none: "\<forall>r\<in>set (tasks d). \<not> accept_guard i (or_empty (b_poster b)) r"
  proof
    fix r assume r: "r \<in> set (tasks d)"
    show "\<not> accept_guard i (or_empty (b_poster b)) r"
    proof
      assume g: "accept_guard i (or_empty (b_poster b)) r"
      then have "tid r = i" by (simp add: accept_guard_def)
      with select_task_unique [OF _ assms r] a have "r = t" by simp
      with g a show False by (simp add: accept_guard_def)
    qed
  qed
  then have "accept_update now d i bd (or_empty (b_poster b)) = (d, 0)" for bd
    by (simp add: accept_update_def sql_update_none sql_changes_zero [THEN iffD2])
  with a p show "accept_bid now d i b =
            (d, if select_bid d (ident (b_bid_id b)) i = None
                then json (Error ''Bid not found'') 404
                else json (Error ''Task already accepted or not open, or not your task'') 409)"
    by (auto simp: accept_bid_def split: option.splits)
qed

theorem actor_mismatch_changes_nothing_witness:
  "select_task st_assigned 1 = Some (lit_task 7000 Assigned (Some ''carol'') None None) \<and>
   submit_work 1000 st_assigned 1
     (signed\<lparr>b_poster := Some ''mallory'', b_worker := Some ''mallory'', b_proof_url := Some ''https://x'',
             b_approved := Some True, b_bid_id := Some 2\<rparr>)
     = (st_assigned, json (Error ''Only the assigned worker can submit'') 403) \<and>
   verify_work 1000 st_assigned 1
     (signed\<lparr>b_poster := Some ''mallory'', b_worker := Some ''mallory'', b_proof_url := Some ''https://x'',
             b_approved := Some True, b_bid_id := Some 2\<rparr>)
     = (st_assigned, json (Error ''Only the poster can verify'') 403) \<and>
   cancel_task 1000 st_assigned 1
     (signed\<lparr>b_poster := Some ''mallory'', b_worker := Some ''mallory'', b_proof_url := Some ''https://x'',
             b_approved := Some True, b_bid_id := Some 2\<rparr>)
     = (st_assigned, json (Error ''Only the poster can cancel'') 403) \<and>
   accept_bid 1000 st_assigned 1
     (signed\<lparr>b_poster := Some ''mallory'', b_worker := Some ''mallory'', b_proof_url := Some ''https://x'',
             b_approved := Some True, b_bid_id := Some 2\<rparr>)
     = (st_assigned, json (Error ''Task already accepted or not open, or not your task'') 409)"
proof -
  let ?b = "signed\<lparr>b_poster := Some ''mallory'', b_worker := Some ''mallory'',
    b_proof_url := Some ''https://x'', b_approved := Some True, b_bid_id := Some 2\<rparr>"
  let ?t = "lit_task 7000 Assigned (Some ''carol'') None None"
  have sel: "select_task st_assigned 1 = Some ?t"
    by (simp add: st_assigned_eq select_task_def lit_defs)
  have h1: "truthy (b_proof_url ?b) \<and> validateAuth 1000 ?b ''submit'' ''worker'' = None \<and>
      worker ?t \<noteq> b_worker ?b"
    by (simp add: run_eval lit_defs)
  have h2: "b_approved ?b \<noteq> None \<and> validateAuth 1000 ?b ''verify'' ''poster'' = None \<and>
      poster ?t \<noteq> or_empty (b_poster ?b)"
    by (simp add: run_eval lit_defs)
  have h3: "validateAuth 1000 ?b ''cancel'' ''poster'' = None \<and> poster ?t \<noteq> or_empty (b_poster ?b)"
    by (simp add: run_eval lit_defs)
  have h4: "truthy_id (b_bid_id ?b) \<and> validateAuth 1000 ?b ''accept_bid'' ''poster'' = None \<and>
      poster ?t \<noteq> or_empty (b_poster ?b) \<and> distinct (map tid (tasks st_assigned))"
    by (simp add: run_eval lit_defs st_assigned_eq)
  have bid: "select_bid st_assigned (ident (b_bid_id ?b)) 1 \<noteq> None"
    by (simp add: st_assigned_eq run_eval lit_defs)
  note all = actor_mismatch_changes_nothing [OF sel, of ?b 1000]
  from all h1 have r1: "submit_work 1000 st_assigned 1 ?b
      = (st_assigned, json (Error ''Only the assigned worker can submit'') 403)"
    by blast
  from all h2 have r2: "verify_work 1000 st_assigned 1 ?b
      = (st_assigned, json (Error ''Only the poster can verify'') 403)"
    by blast
  from all h3 have r3: "cancel_task 1000 st_assigned 1 ?b
      = (st_assigned, json (Error ''Only the poster can cancel'') 403)"
    by blast
  from all h4 have "accept_bid 1000 st_assigned 1 ?b =
      (st_assigned, if select_bid st_assigned (ident (b_bid_id ?b)) 1 = None
          then json (Error ''Bid not found'') 404
          else json (Error ''Task already accepted or not open, or not your task'') 409)"
    by blast
  with bid have r4: "accept_bid 1000 st_assigned 1 ?b
      = (st_assigned, json (Error ''Task already accepted or not open, or not your task'') 409)"
    by auto
  from sel r1 r2 r3 r4 show ?thesis
    by (intro conjI)
qed

theorem accept_by_stranger_is_conflict_counterexample:
  "map poster (tasks st_bids) = [''alice''] \<and> map status (tasks st_bids) = [Open] \<and>
   map bid_id (bids st_bids) = [1, 2] \<and>
   validateAuth 1000 (signed\<lparr>b_poster := Some ''mallory'', b_bid_id := Some 2\<rparr>) ''accept_bid'' ''poster'' = None \<and>
   accept_bid 1000 st_bids 1 (signed\<lparr>b_poster := Some ''mallory'', b_bid_id := Some 2\<rparr>)
     = (st_bids, json (Error ''Task already accepted or not open, or not your task'') 409)"
  by (simp add: st_bids_eq run_eval lit_defs)

text \<open>
  C9 (as amended). On an existing task whose status does not meet the transition's
  source state, a request with a valid envelope fails with HTTP 400 and changes nothing:
  a bid on a task that is not open; a cancel by the poster of a task that is not open; a
  submit by the task's worker of a task that is not assigned; a verify by the poster of a
  task that is not submitted. The message is fixed per transition and does not name the
  task's current status. (The actor check of submit, verify and cancel comes first: by
  another address these calls fail with 403, and a submit on an open task, which has no
  worker, always does.)
\<close>

theorem wrong_state_is_rejected:
  assumes "select_task d i = Some t"
  shows "(truthy_num (b_amount_sats b) \<and> validateAuth now b ''bid'' ''bidder'' = None \<and>
            status t \<noteq> Open \<longrightarrow>
          place_bid now d i b = (d, json (Error ''Task is not open for bids'') 400)) \<and>
         (validateAuth now b ''cancel'' ''poster'' = None \<and> poster t = or_empty (b_poster b) \<and>
            status t \<noteq> Open \<longrightarrow>
          cancel_task now d i b = (d, json (Error ''Can only cancel open tasks'') 400)) \<and>
         (truthy (b_proof_url b) \<and> validateAuth now b ''submit'' ''worker'' = None \<and>
            worker t = b_worker b \<and> status t \<noteq> Assigned \<longrightarrow>
          submit_work now d i b = (d, json (Error ''Task is not in assigned state'') 400)) \<and>
         (b_approved b \<noteq> None \<and> validateAuth now b ''verify'' ''poster'' = None \<and>
            poster t = or_empty (b_poster b) \<and> status t \<noteq> Submitted \<longrightarrow>
          verify_work now d i b = (d, json (Error ''Task work not submitted yet'') 400))"
proof (intro conjI impI)
  assume a: "truthy_num (b_amount_sats b) \<and> validateAuth now b ''bid'' ''bidder'' = None \<and>
            status t \<noteq> Open"
  then have "truthy (b_bidder b)"
    using validateAuth_address [of now b "''bid''" "''bidder''"] by (simp add: address_field_def)
  with a assms show "place_bid now d i b = (d, json (Error ''Task is not open for bids'') 400)"
    by (simp add: place_bid_def)
next
  assume a: "validateAuth now b ''cancel'' ''poster'' = None \<and> poster t = or_empty (b_poster b) \<and>
            status t \<noteq> Open"
  then have "truthy (b_poster b)"
    using validateAuth_address [of now b "''cancel''" "''poster''"] by (simp add: address_field_def)
  with a assms show "cancel_task now d i b = (d, json (Error ''Can only cancel open tasks'') 400)"
    by (simp add: cancel_task_def)
next
  assume a: "truthy (b_proof_url b) \<and> validateAuth now b ''submit'' ''worker'' = None \<and>
            worker t = b_worker b \<and> status t \<noteq> Assigned"
  then have "truthy (b_worker b)"
    using validateAuth_address [of now b "''submit''" "''worker''"] by (simp add: address_field_def)
  with a assms show "submit_work now d i b = (d, json (Error ''Task is not in assigned state'') 400)"
    by (simp add: submit_work_def)
next
  assume a: "b_approved b \<noteq> None \<and> validateAuth now b ''verify'' ''poster'' = None \<and>
            poster t = or_empty (b_poster b) \<and> status t \<noteq> Submitted"
  then have "truthy (b_poster b)"
    using validateAuth_address [of now b "''verify''" "''poster''"] by (simp add: address_field_def)
  with a assms show "verify_work now d i b = (d, json (Error ''Task work not submitted yet'') 400)"
    by (auto simp: verify_work_def)
qed

theorem wrong_state_is_rejected_witness:
  "select_task st_verified 1 = Some (lit_task 7000 Verified (Some ''carol'') (Some ''https://x'') None) \<and>
   place_bid 1000 st_verified 1
     (signed\<lparr>b_poster := Some ''alice'', b_bidder := Some ''bob'', b_amount_sats := Some 5,
             b_worker := Some ''carol'', b_proof_url := Some ''https://y'', b_approved := Some True\<rparr>)
     = (st_verified, json (Error ''Task is not open for bids'') 400) \<and>
   cancel_task 1000 st_verified 1
     (signed\<lparr>b_poster := Some ''alice'', b_bidder := Some ''bob'', b_amount_sats := Some 5,
             b_worker := Some ''carol'', b_proof_url := Some ''https://y'', b_approved := Some True\<rparr>)
     = (st_verified, json (Error ''Can only cancel open tasks'') 400) \<and>
   submit_work 1000 st_verified 1
     (signed\<lparr>b_poster := Some ''alice'', b_bidder := Some ''bob'', b_amount_sats := Some 5,
             b_worker := Some ''carol'', b_proof_url := Some ''https://y'', b_approved := Some True\<rparr>)
     = (st_verified, json (Error ''Task is not in assigned state'') 400) \<and>
   verify_work 1000 st_verified 1
     (signed\<lparr>b_poster := Some ''alice'', b_bidder := Some ''bob'', b_amount_sats := Some 5,
             b_worker := Some ''carol'', b_proof_url := Some ''https://y'', b_approved := Some True\<rparr>)
     = (st_verified, json (Error ''Task work not submitted yet'') 400)"
proof -
  let ?b = "signed\<lparr>b_poster := Some ''alice'', b_bidder := Some ''bob'', b_amount_sats := Some 5,
    b_worker := Some ''carol'', b_proof_url := Some ''https://y'', b_approved := Some True\<rparr>"
  let ?t = "lit_task 7000 Verified (Some ''carol'') (Some ''https://x'') None"
  have sel: "select_task st_verified 1 = Some ?t"
    by (simp add: st_verified_eq select_task_def lit_defs)
  have h1: "truthy_num (b_amount_sats ?b) \<and> validateAuth 1000 ?b ''bid'' ''bidder'' = None \<and>
      status ?t \<noteq> Open"
    by (simp add: run_eval lit_defs)
  have h2: "validateAuth 1000 ?b ''cancel'' ''poster'' = None \<and> poster ?t = or_empty (b_poster ?b) \<and>
      status ?t \<noteq> Open"
    by (simp add: run_eval lit_defs)
  have h3: "truthy (b_proof_url ?b) \<and> validateAuth 1000 ?b ''submit'' ''worker'' = None \<and>
      worker ?t = b_worker ?b \<and> status ?t \<noteq> Assigned"
    by (simp add: run_eval lit_defs)
  have h4: "b_approved ?b \<noteq> None \<and> validateAuth 1000 ?b ''verify'' ''poster'' = None \<and>
      poster ?t = or_empty (b_poster ?b) \<and> status ?t \<noteq> Submitted"
    by (simp add: run_eval lit_defs)
  note all = wrong_state_is_rejected [OF sel, of ?b 1000]
  from all h1 have r1: "place_bid 1000 st_verified 1 ?b
      = (st_verified, json (Error ''Task is not open for bids'') 400)"
    by blast
  from all h2 have r2: "cancel_task 1000 st_verified 1 ?b
      = (st_verified, json (Error ''Can only cancel open tasks'') 400)"
    by blast
  from all h3 have r3: "submit_work 1000 st_verified 1 ?b
      = (st_verified, json (Error ''Task is not in assigned state'') 400)"
    by blast
  from all h4 have r4: "verify_work 1000 st_verified 1 ?b
      = (st_verified, json (Error ''Task work not submitted yet'') 400)"
    by blast
  from sel r1 r2 r3 r4 show ?thesis
    by (intro conjI)
qed

theorem wrong_state_report_counterexample:
  "map status (tasks st_open) = [Open] \<and>
   validateAuth 1000 (signed\<lparr>b_worker := Some ''bob'', b_proof_url := Some ''https://x''\<rparr>)
     ''submit'' ''worker'' = None \<and>
   submit_work 1000 st_open 1 (signed\<lparr>b_worker := Some ''bob'', b_proof_url := Some ''https://x''\<rparr>)
     = (st_open, json (Error ''Only the assigned worker can submit'') 403) \<and>
   map status (tasks st_assigned) = [Assigned] \<and> map status (tasks st_verified) = [Verified] \<and>
   snd (cancel_task 1000 st_assigned 1 (signed\<lparr>b_poster := Some ''alice''\<rparr>))
     = json (Error ''Can only cancel open tasks'') 400 \<and>
   snd (cancel_task 1000 st_verified 1 (signed\<lparr>b_poster := Some ''alice''\<rparr>))
     = json (Error ''Can only cancel open tasks'') 400"
  by (simp add: st_open_eq st_assigned_eq st_verified_eq run_eval lit_defs)

text \<open>
  C10. A successful verify call (HTTP 200) with approved = true answers with the status
  field verified, whatever payment_tx is; the status stored in the task row is paid when
  payment_tx is a non-empty string and verified otherwise. So with a payment_tx the row says
  paid while the response says verified.
\<close>

theorem verify_response_reports_verified:
  assumes "verify_work now d i b = (d', r)" and "fst r = 200" and "b_approved b = Some True"
  shows "snd r = VerifyResult Verified \<and>
         map_option status (select_task d' i) =
           Some (if truthy (b_payment_tx b) then Paid else Verified)"
proof -
  from assms obtain t where t: "select_task d i = Some t" and
    d': "tasks d' = sql_update (\<lambda>r. tid r = i)
          (\<lambda>r. r\<lparr>status := (if truthy (b_payment_tx b) then Paid else Verified),
                 payment_tx := or_null (b_payment_tx b), updated_at := now\<rparr>) (tasks d)" and
    r: "snd r = VerifyResult Verified"
    by (auto simp: verify_work_def json_def Let_def split: option.splits if_splits)
  from select_task_SomeD [OF t] have "tid t = i" by simp
  with t show ?thesis
    by (simp add: r select_task_update [OF d'])
qed

theorem verify_response_reports_verified_witness:
  "verify_work 1000 st_submitted 1
     (signed\<lparr>b_poster := Some ''alice'', b_approved := Some True, b_payment_tx := Some ''0xabc''\<rparr>)
     = (st_paid, json (VerifyResult Verified) 200) \<and>
   truthy (Some ''0xabc'') \<and>
   map_option status (select_task st_paid 1) = Some Paid"
proof -
  let ?b = "signed\<lparr>b_poster := Some ''alice'', b_approved := Some True, b_payment_tx := Some ''0xabc''\<rparr>"
  have "snd (fetch 1000 st_submitted rq_verify_paid) = json (VerifyResult Verified) 200"
    by (simp add: st_submitted_eq rq_verify_paid_def run_eval lit_defs)
  then have run: "verify_work 1000 st_submitted 1 ?b = (st_paid, json (VerifyResult Verified) 200)"
    by (simp add: st_paid_def rq_verify_paid_def prod_eq_iff)
  have t: "truthy (Some ''0xabc'')"
    by (simp add: truthy_def)
  from verify_response_reports_verified [OF run] t
  have "map_option status (select_task st_paid 1) = Some Paid"
    by (simp add: json_def)
  with run t show ?thesis
    by (intro conjI)
qed

end
